theory Spec2Isabelle
  imports Complex_Main
begin

section \<open>Errors\<close>

text \<open>
  The exceptions the modelled code can raise. \<open>GetoptError\<close> carries the message that
  \<open>str(err)\<close> prints, \<open>AssertionError\<close> the message of the \<open>assert\<close>;
  \<open>Failure\<close> is an exception raised inside a collaborator that the script calls but does
  not define.
\<close>

datatype error =
    GetoptError string
  | AssertionError string
  | NameError string
  | IndexError
  | ConfigurationError
  | DataError
  | Failure string

section \<open>The command line of Reconstruct.py\<close>

subsection \<open>getopt, as the standard library implements it\<close>

text \<open>\<open>s.startswith(p)\<close> on strings.\<close>

definition startswith :: "string \<Rightarrow> string \<Rightarrow> bool" where
  "startswith s p = (take (length p) s = p)"

text \<open>
  \<open>short_has_arg(opt, shortopts)\<close>: the first position of \<open>shortopts\<close> holding
  \<open>opt\<close> (a colon never matches) decides whether an argument follows; no position
  raises \<open>option -x not recognized\<close>.
\<close>

fun short_has_arg :: "char \<Rightarrow> string \<Rightarrow> error + bool" where
  "short_has_arg opt [] = Inl (GetoptError (''option -'' @ [opt] @ '' not recognized''))"
| "short_has_arg opt (c # cs) =
     (if opt = c \<and> c \<noteq> CHR '':'' then Inr (startswith cs '':'')
      else short_has_arg opt cs)"

text \<open>
  \<open>do_shorts(opts, optstring, shortopts, args)\<close>: one pass of the \<open>while\<close> loop per
  character of the cluster; an option that takes an argument swallows the rest of the
  cluster, or the next argument, and ends the loop.
\<close>

fun do_shorts ::
  "(string \<times> string) list \<Rightarrow> string \<Rightarrow> string \<Rightarrow> string list
     \<Rightarrow> error + ((string \<times> string) list \<times> string list)" where
  "do_shorts opts [] shortopts args = Inr (opts, args)"
| "do_shorts opts (opt # optstring) shortopts args =
     (case short_has_arg opt shortopts of
        Inl e \<Rightarrow> Inl e
      | Inr has_arg \<Rightarrow>
          if has_arg then
            (if optstring = [] then
               (case args of
                  [] \<Rightarrow> Inl (GetoptError (''option -'' @ [opt] @ '' requires argument''))
                | a # args' \<Rightarrow> Inr (opts @ [(''-'' @ [opt], a)], args'))
             else Inr (opts @ [(''-'' @ [opt], optstring)], args))
          else do_shorts (opts @ [(''-'' @ [opt], '''')]) optstring shortopts args)"

text \<open>\<open>s.endswith('=')\<close> and \<open>s[:-1]\<close>.\<close>

definition endswith_eq :: "string \<Rightarrow> bool" where
  "endswith_eq s = (s \<noteq> [] \<and> last s = CHR ''='')"

text \<open>
  \<open>long_has_args(opt, longopts)\<close>: the long options that \<open>opt\<close> is a prefix of; an
  exact match wins, otherwise the prefix has to be unique.
\<close>

definition long_has_args :: "string \<Rightarrow> string list \<Rightarrow> error + (bool \<times> string)" where
  "long_has_args opt longopts =
     (let possibilities = filter (\<lambda>o'. startswith o' opt) longopts in
      if possibilities = [] then
        Inl (GetoptError (''option --'' @ opt @ '' not recognized''))
      else if opt \<in> set possibilities then Inr (False, opt)
      else if (opt @ ''='') \<in> set possibilities then Inr (True, opt)
      else if length possibilities > 1 then
        Inl (GetoptError (''option --'' @ opt @ '' not a unique prefix''))
      else
        (let unique_match = hd possibilities in
         if endswith_eq unique_match then Inr (True, butlast unique_match)
         else Inr (False, unique_match)))"

text \<open>
  \<open>opt.index('=')\<close>: the text before and after the first \<open>=\<close>, or no argument
  (\<open>None\<close>) when there is none.
\<close>

fun split_eq :: "string \<Rightarrow> string \<times> string option" where
  "split_eq [] = ([], None)"
| "split_eq (c # cs) =
     (if c = CHR ''='' then ([], Some cs)
      else (case split_eq cs of (name, optarg) \<Rightarrow> (c # name, optarg)))"

text \<open>
  \<open>do_longs(opts, opt, longopts, args)\<close>; \<open>optarg or ''\<close> is the last case. An
  option that takes no argument rejects any \<open>=value\<close>, the empty one too
  (\<open>elif optarg is not None\<close>; early releases tested \<open>elif optarg\<close> and let an empty
  value pass, which no property below depends on).
\<close>

definition do_longs ::
  "(string \<times> string) list \<Rightarrow> string \<Rightarrow> string list \<Rightarrow> string list
     \<Rightarrow> error + ((string \<times> string) list \<times> string list)" where
  "do_longs opts opt0 longopts args =
     (case split_eq opt0 of (opt1, optarg) \<Rightarrow>
        (case long_has_args opt1 longopts of
           Inl e \<Rightarrow> Inl e
         | Inr (has_arg, opt) \<Rightarrow>
             if has_arg then
               (case optarg of
                  None \<Rightarrow>
                    (case args of
                       [] \<Rightarrow> Inl (GetoptError (''option --'' @ opt @ '' requires argument''))
                     | a # args' \<Rightarrow> Inr (opts @ [(''--'' @ opt, a)], args'))
                | Some v \<Rightarrow> Inr (opts @ [(''--'' @ opt, v)], args))
             else
               (case optarg of
                  Some v \<Rightarrow>
                    Inl (GetoptError (''option --'' @ opt @ '' must not have an argument''))
                | None \<Rightarrow> Inr (opts @ [(''--'' @ opt, '''')], args))))"

lemma do_shorts_length:
  "do_shorts opts optstring shortopts args = Inr (opts', args') \<Longrightarrow> length args' \<le> length args"
  by (induction optstring arbitrary: opts)
     (auto split: sum.splits if_splits list.splits)

lemma do_longs_length:
  "do_longs opts opt0 longopts args = Inr (opts', args') \<Longrightarrow> length args' \<le> length args"
  by (auto simp: do_longs_def split: prod.splits sum.splits if_splits option.splits list.splits)

text \<open>
  The \<open>while\<close> loop of \<open>getopt\<close>: it runs while the first argument starts with a
  dash and is not the single dash; \<open>--\<close> ends the options and is dropped. Each pass
  hands the rest of the arguments to \<open>do_longs\<close> or \<open>do_shorts\<close> and goes on with
  what they leave, so the loop ends.
\<close>

function getopt_loop ::
  "(string \<times> string) list \<Rightarrow> string list \<Rightarrow> string \<Rightarrow> string list
     \<Rightarrow> error + ((string \<times> string) list \<times> string list)" where
  "getopt_loop opts [] shortopts longopts = Inr (opts, [])"
| "getopt_loop opts (a # rest) shortopts longopts =
     (if startswith a ''-'' \<and> a \<noteq> ''-'' then
        (if a = ''--'' then Inr (opts, rest)
         else if startswith a ''--'' then
           (case do_longs opts (drop 2 a) longopts rest of
              Inl e \<Rightarrow> Inl e
            | Inr (opts', args') \<Rightarrow> getopt_loop opts' args' shortopts longopts)
         else
           (case do_shorts opts (drop 1 a) shortopts rest of
              Inl e \<Rightarrow> Inl e
            | Inr (opts', args') \<Rightarrow> getopt_loop opts' args' shortopts longopts))
      else Inr (opts, a # rest))"
  by pat_completeness auto
termination
proof (relation "measure (\<lambda>(opts, args, shortopts, longopts). length args)", goal_cases)
  case 1
  show ?case by simp
next
  case (2 opts a rest shortopts longopts x2 opts' args')
  then show ?case using do_longs_length [of opts "drop 2 a" longopts rest opts' args'] by simp
next
  case (3 opts a rest shortopts longopts x2 opts' args')
  then show ?case using do_shorts_length [of opts "drop 1 a" shortopts rest opts' args'] by simp
qed

definition getopt ::
  "string list \<Rightarrow> string \<Rightarrow> string list \<Rightarrow> error + ((string \<times> string) list \<times> string list)" where
  "getopt args shortopts longopts = getopt_loop [] args shortopts longopts"

subsection \<open>Reconstruct(argv)\<close>

text \<open>
  What \<open>print\<close> writes: \<open>Usage\<close> stands for the function's own docstring
  (\<open>print Reconstruct.__doc__\<close>), \<open>Text\<close> for any other line.
\<close>

datatype line = Usage | Text string

text \<open>
  The result of one call: the lines printed, the local \<open>configfile\<close> when the call
  got as far as binding it, and the exception that left the function, if any. Every
  \<open>return\<close> of the function returns \<open>None\<close>, so a call that raises nothing ends
  normally.
\<close>

record cli_result =
  printed :: "line list"
  configfile :: "string option"
  raised :: "error option"

text \<open>
  The \<open>for o,a in opts\<close> loop: the first option decides, since both branches leave the
  function.
\<close>

fun option_loop :: "(string \<times> string) list \<Rightarrow> cli_result option" where
  "option_loop [] = None"
| "option_loop ((o', a) # opts) =
     (if o' = ''-h'' \<or> o' = ''--help'' then
        Some \<lparr>printed = [Usage], configfile = None, raised = None\<rparr>
      else
        Some \<lparr>printed = [], configfile = None,
              raised = Some (AssertionError ''unhandled option'')\<rparr>)"

definition Reconstruct :: "string list \<Rightarrow> cli_result" where
  "Reconstruct argv =
     (case getopt argv ''h'' [''help''] of
        Inl err \<Rightarrow>
          (case err of
             GetoptError msg \<Rightarrow> \<lparr>printed = [Text msg, Usage], configfile = None, raised = None\<rparr>
           | _ \<Rightarrow> \<lparr>printed = [], configfile = None, raised = Some err\<rparr>)
      | Inr (opts, args) \<Rightarrow>
          (case option_loop opts of
             Some r \<Rightarrow> r
           | None \<Rightarrow>
               if length args = 1 then
                 \<lparr>printed = [Text (''Reconstructing the halo mass in various lightcones, according to instructions in '' @ hd args)],
                  configfile = Some (hd args), raised = None\<rparr>
               else \<lparr>printed = [Usage], configfile = None, raised = None\<rparr>))"

text \<open>
  Lines 4 to 9, 13 and 92 to 93: the names the module has bound when it reaches its entry
  point, \<open>Reconstruct(sys.argv[1:])\<close>. The argument is evaluated before the call, and
  \<open>sys\<close> is not among the names, so run as a script the module raises \<open>NameError\<close>
  there.
\<close>

definition bound_names :: "string list" where
  "bound_names = [''pangloss'', ''glob'', ''getopt'', ''numpy'', ''cPickle'', ''Reconstruct'']"

definition script_entry :: "string list \<Rightarrow> cli_result" where
  "script_entry argv =
     (if ''sys'' \<in> set bound_names then Reconstruct argv
      else \<lparr>printed = [], configfile = None, raised = Some (NameError ''sys'')\<rparr>)"

section \<open>The pipeline script of Reconstruct.py\<close>

text \<open>
  After the function, the module runs a script (lines 123 to 221) that reads names no line
  of the file binds and calls functions no file defines. The names it reads are taken
  together as the environment of a run, the functions it calls as its collaborators, and
  the script is embedded statement by statement over both.
\<close>

subsection \<open>Environment, collaborators and effects\<close>

text \<open>
  The free names of the script. \<open>CreateNewCalibrationLightones\<close> and
  \<open>Nrealisation\<close> are spelled as the script reads them (it assigns
  \<open>CreateNewCalibrationLightcones\<close> and \<open>Nrealisations\<close>, two other names).
  \<open>WeightParameter1\<close>, \<open>kappa\<close> and \<open>mu\<close> are three names compared with
  \<open>==\<close>. \<open>calibrationWidth\<close> is an option of the survey parameter set that no line
  of the script reads. The names \<open>zl\<close>, \<open>zs\<close>, \<open>surveyparams\<close> and the arguments
  of \<open>MakeCones\<close> other than the count, the pattern and the radius are only handed on
  to collaborators and are left out.
\<close>

record 'w env =
  calibrationcones :: string
  realcones :: string
  surveyname :: string
  CalibrationResultsDirectory :: string
  RealResultsDirectory :: string
  CreateNewCalibrationLightones :: bool
  DoReconstruction :: bool
  Nrealisation :: int
  WeightParameter1 :: 'w
  kappa :: 'w
  mu :: 'w
  calibrationWidth :: real

text \<open>A ConeResult is indexed by position, and position 3 holds a sequence of samples.\<close>

type_synonym 'v ConeResult = "'v list list"

text \<open>
  The functions the script calls: \<open>glob.glob\<close>, \<open>numpy.median\<close>, and the functions
  of the project that the script names without defining them. A call either returns or
  raises; \<open>MakeCones\<close>, \<open>load_objects\<close> (opening and unpickling the two SHMR tables
  and building the redshift grid, lines 145 to 151) and the two calibration builders
  return nothing the script uses. \<open>Reconstruct_cone\<close> is the nine-argument call of lines
  169 and 199, with the cone, the realisation count and the truncation scale kept. A
  collaborator is a function of its arguments: what a call returned for a lightcone is
  what the collaborator gives for that lightcone.
\<close>

record ('v, 'r) collaborators =
  glob :: "string \<Rightarrow> string list"
  median :: "'v list \<Rightarrow> 'v"
  MakeCones :: "nat \<Rightarrow> string \<Rightarrow> nat \<Rightarrow> error option"
  load_objects :: "error option"
  WeightingScheme :: "string \<Rightarrow> error + 'v ConeResult"
  Reconstruct_cone :: "string \<Rightarrow> int \<Rightarrow> nat \<Rightarrow> error + 'v ConeResult"
  MakeReconstructionCalibration :: "string \<Rightarrow> string \<Rightarrow> error option"
  MakeWeightCalibration :: "string \<Rightarrow> string \<Rightarrow> error option"
  CalibrateResult :: "string \<Rightarrow> string \<Rightarrow> 'v \<Rightarrow> real \<Rightarrow> bool \<Rightarrow> error + 'r"

text \<open>What \<open>cPickle.dump\<close> is given: a ConeResult, or the Result of a calibration.\<close>

datatype ('v, 'r) pickled = PConeResult "'v ConeResult" | PResult 'r

text \<open>
  The effects of a run, in order: a file written (\<open>open(name, "wb")\<close>, \<open>cPickle.dump\<close>,
  \<open>close\<close>), and the calls of \<open>CalibrateResult\<close> with the observed value, the width
  and the magnification flag.
\<close>

datatype ('v, 'r) event =
    Dump string "('v, 'r) pickled"
  | CalibrateResultCall string string 'v real bool

text \<open>
  The state of the script: the effects so far and the variable \<open>Result\<close>, unbound
  until a calibration branch assigns it.
\<close>

record ('v, 'r) state =
  trace :: "('v, 'r) event list"
  Result :: "'r option"

text \<open>A statement ends normally or raises; the state reached is kept in both cases.\<close>

datatype 's outcome = Ok 's | Raised error 's

fun state_of :: "'s outcome \<Rightarrow> 's" where
  "state_of (Ok s) = s"
| "state_of (Raised err s) = s"

text \<open>Sequencing: the next statement runs only after a normal end.\<close>

fun and_then :: "'s outcome \<Rightarrow> ('s \<Rightarrow> 's outcome) \<Rightarrow> 's outcome" where
  "and_then (Ok s) f = f s"
| "and_then (Raised err s) f = Raised err s"

text \<open>A call whose value the script does not use.\<close>

definition call :: "error option \<Rightarrow> 's \<Rightarrow> 's outcome" where
  "call r s = (case r of None \<Rightarrow> Ok s | Some err \<Rightarrow> Raised err s)"

text \<open>\<open>for i in range(len(Conelist)): Cone = Conelist[i]; ...\<close>, from index \<open>i\<close> on.\<close>

fun for_range :: "(nat \<Rightarrow> 'a \<Rightarrow> 's \<Rightarrow> 's outcome) \<Rightarrow> nat \<Rightarrow> 'a list \<Rightarrow> 's \<Rightarrow> 's outcome" where
  "for_range body i [] s = Ok s"
| "for_range body i (Cone # Conelist) s =
     (case body i Cone s of
        Ok s' \<Rightarrow> for_range body (Suc i) Conelist s'
      | Raised err s' \<Rightarrow> Raised err s')"

subsection \<open>File names\<close>

text \<open>\<open>%i\<close> of a loop index: its decimal digits.\<close>

definition digit :: "nat \<Rightarrow> char" where
  "digit d = ''0123456789'' ! d"

fun str_nat :: "nat \<Rightarrow> string" where
  "str_nat n = (if n < 10 then [digit n] else str_nat (n div 10) @ [digit (n mod 10)])"

declare str_nat.simps [simp del]

text \<open>\<open>"%s/cone%i_%s.<suffix>" % (directory, i, surveyname)\<close>.\<close>

definition cone_file :: "string \<Rightarrow> nat \<Rightarrow> string \<Rightarrow> string \<Rightarrow> string" where
  "cone_file directory i name suffix =
     directory @ ''/cone'' @ str_nat i @ ''_'' @ name @ ''.'' @ suffix"

definition log :: "('v, 'r) event \<Rightarrow> ('v, 'r) state \<Rightarrow> ('v, 'r) state" where
  "log ev s = s\<lparr>trace := trace s @ [ev]\<rparr>"

subsection \<open>The script\<close>

text \<open>Lines 125, 126, 139: \<open>N=100\<close>, \<open>radius=2\<close>, \<open>truncationscale=5\<close>.\<close>

definition N :: nat where "N = 100"
definition radius :: nat where "radius = 2"
definition truncationscale :: nat where "truncationscale = 5"

text \<open>Lines 166 to 174: one calibration lightcone is reconstructed and its result saved.\<close>

definition calibration_cone ::
  "('v, 'r) collaborators \<Rightarrow> 'w env \<Rightarrow> nat \<Rightarrow> string \<Rightarrow> ('v, 'r) state \<Rightarrow> ('v, 'r) state outcome" where
  "calibration_cone c e i Cone s =
     (case Reconstruct_cone c Cone (Nrealisation e) truncationscale of
        Inl err \<Rightarrow> Raised err s
      | Inr ConeResult \<Rightarrow>
          Ok (log (Dump (cone_file (CalibrationResultsDirectory e) i (surveyname e) ''result'')
                     (PConeResult ConeResult)) s))"

text \<open>
  Lines 160 to 163: without reconstruction the weighting scheme is called and nothing is
  saved. (The source notes that \<open>WeightingScheme\<close> does not exist yet; a call that raises
  is the case \<open>Inl\<close>.)
\<close>

definition weighting_cone ::
  "('v, 'r) collaborators \<Rightarrow> nat \<Rightarrow> string \<Rightarrow> ('v, 'r) state \<Rightarrow> ('v, 'r) state outcome" where
  "weighting_cone c i Cone s =
     (case WeightingScheme c Cone of Inl err \<Rightarrow> Raised err s | Inr ConeResult \<Rightarrow> Ok s)"

text \<open>
  Lines 211 to 215: \<open>if WeightParameter1==kappa: ... elif WeightParameter1==mu: ...\<close>, with
  no \<open>else\<close>. Both branches pass \<open>width=0.01\<close>.
\<close>

definition calibrate ::
  "('v, 'r) collaborators \<Rightarrow> 'w env \<Rightarrow> 'v \<Rightarrow> bool \<Rightarrow> ('v, 'r) state \<Rightarrow> ('v, 'r) state outcome" where
  "calibrate c e Value magnification s =
     (let s' = log (CalibrateResultCall (CalibrationResultsDirectory e) (surveyname e)
                      Value 0.01 magnification) s in
      case CalibrateResult c (CalibrationResultsDirectory e) (surveyname e)
             Value 0.01 magnification of
        Inl err \<Rightarrow> Raised err s'
      | Inr r \<Rightarrow> Ok (s'\<lparr>Result := Some r\<rparr>))"

definition calibration_branch ::
  "('v, 'r) collaborators \<Rightarrow> 'w env \<Rightarrow> 'v \<Rightarrow> ('v, 'r) state \<Rightarrow> ('v, 'r) state outcome" where
  "calibration_branch c e Value s =
     (if WeightParameter1 e = kappa e then calibrate c e Value False s
      else if WeightParameter1 e = mu e then calibrate c e Value True s
      else Ok s)"

text \<open>Lines 218 to 221: \<open>Result\<close> is saved; reading it unbound is a \<open>NameError\<close>.\<close>

definition dump_Result :: "'w env \<Rightarrow> nat \<Rightarrow> ('v, 'r) state \<Rightarrow> ('v, 'r) state outcome" where
  "dump_Result e i s =
     (case Result s of
        None \<Rightarrow> Raised (NameError ''Result'') s
      | Some r \<Rightarrow>
          Ok (log (Dump (cone_file (RealResultsDirectory e) i (surveyname e) ''calibratedresult'')
                     (PResult r)) s))"

text \<open>
  Lines 198 to 221: one real lightcone. \<open>ConeResult[3]\<close> needs four entries
  (\<open>IndexError\<close> otherwise).
\<close>

definition real_cone ::
  "('v, 'r) collaborators \<Rightarrow> 'w env \<Rightarrow> nat \<Rightarrow> string \<Rightarrow> ('v, 'r) state \<Rightarrow> ('v, 'r) state outcome" where
  "real_cone c e i Cone s =
     (case Reconstruct_cone c Cone (Nrealisation e) truncationscale of
        Inl err \<Rightarrow> Raised err s
      | Inr ConeResult \<Rightarrow>
          (let s1 = log (Dump (cone_file (RealResultsDirectory e) i (surveyname e)
                                 ''uncalibratedresult'') (PConeResult ConeResult)) s in
           if length ConeResult \<le> 3 then Raised IndexError s1
           else
             (let Value = median c (ConeResult ! 3) in
              and_then (calibration_branch c e Value s1) (dump_Result e i))))"

text \<open>
  Lines 156 to 174, with \<open>CreateNewCalibration=True\<close> of line 155: the calibration
  lightcones.
\<close>

definition calibration_phase ::
  "('v, 'r) collaborators \<Rightarrow> 'w env \<Rightarrow> ('v, 'r) state \<Rightarrow> ('v, 'r) state outcome" where
  "calibration_phase c e s =
     (let Conelist = glob c (calibrationcones e) in
      if DoReconstruction e then for_range (calibration_cone c e) 0 Conelist s
      else for_range (weighting_cone c) 0 Conelist s)"

text \<open>Lines 179 to 183: the calibration guide is built from the results directory.\<close>

definition build_calibration ::
  "('v, 'r) collaborators \<Rightarrow> 'w env \<Rightarrow> ('v, 'r) state \<Rightarrow> ('v, 'r) state outcome" where
  "build_calibration c e s =
     (if DoReconstruction e then
        call (MakeReconstructionCalibration c (CalibrationResultsDirectory e) (surveyname e)) s
      else call (MakeWeightCalibration c (CalibrationResultsDirectory e) (surveyname e)) s)"

text \<open>Lines 194 to 221: the real lightcones, only with reconstruction.\<close>

definition real_phase ::
  "('v, 'r) collaborators \<Rightarrow> 'w env \<Rightarrow> ('v, 'r) state \<Rightarrow> ('v, 'r) state outcome" where
  "real_phase c e s =
     (if DoReconstruction e then for_range (real_cone c e) 0 (glob c (realcones e)) s
      else Ok s)"

text \<open>Lines 128 and 129, and lines 135 to 151.\<close>

definition make_cones ::
  "('v, 'r) collaborators \<Rightarrow> 'w env \<Rightarrow> ('v, 'r) state \<Rightarrow> ('v, 'r) state outcome" where
  "make_cones c e s =
     (if CreateNewCalibrationLightones e then call (MakeCones c N (calibrationcones e) radius) s
      else Ok s)"

definition define_objects ::
  "('v, 'r) collaborators \<Rightarrow> 'w env \<Rightarrow> ('v, 'r) state \<Rightarrow> ('v, 'r) state outcome" where
  "define_objects c e s = (if DoReconstruction e then call (load_objects c) s else Ok s)"

text \<open>The script from line 123 to its end, started with nothing written and \<open>Result\<close> unbound.\<close>

definition pipeline :: "('v, 'r) collaborators \<Rightarrow> 'w env \<Rightarrow> ('v, 'r) state outcome" where
  "pipeline c e =
     and_then (and_then (and_then (and_then
       (make_cones c e \<lparr>trace = [], Result = None\<rparr>)
       (define_objects c e))
       (calibration_phase c e))
       (build_calibration c e))
       (real_phase c e)"

text \<open>The files written and the calibration calls made, read off a trace in order.\<close>

fun dump_names :: "('v, 'r) event list \<Rightarrow> string list" where
  "dump_names [] = []"
| "dump_names (Dump name obj # tr) = name # dump_names tr"
| "dump_names (CalibrateResultCall d n v w m # tr) = dump_names tr"

fun calibrate_calls :: "('v, 'r) event list \<Rightarrow> ('v \<times> real \<times> bool) list" where
  "calibrate_calls [] = []"
| "calibrate_calls (Dump name obj # tr) = calibrate_calls tr"
| "calibrate_calls (CalibrateResultCall d n v w m # tr) = (v, w, m) # calibrate_calls tr"

section \<open>The foreground catalog (pangloss/foreground.py)\<close>

text \<open>
  A row of the catalog table, with the columns the selection reads; a row may carry more
  columns. Column values are floating-point numbers in the code and real numbers here.
\<close>

record galaxy =
  nRA :: real
  Dec :: real
  mag :: real
  Mstar_obs :: real
  z_obs :: real

text \<open>
  The attributes of a \<open>ForegroundCatalog\<close> that the selection reads: the table and the
  world coordinate limits that \<open>__init__\<close> sets (in degrees).
\<close>

record 'a ForegroundCatalog =
  data :: "'a galaxy_scheme list"
  ra_max :: real
  ra_min :: real
  dec_max :: real
  dec_min :: real

text \<open>\<open>np.deg2rad\<close> and \<open>np.rad2deg\<close>.\<close>

definition deg2rad :: "real \<Rightarrow> real" where
  "deg2rad x = x * (pi / 180)"

definition rad2deg :: "real \<Rightarrow> real" where
  "rad2deg x = x * (180 / pi)"

text \<open>
  The boolean mask, written four times in the source with the same text (lines 103 to 107,
  109 to 113, 115 to 119 and 137 to 141): the third line compares \<open>z_obs\<close> with
  \<open>mag_cutoff\<close>.
\<close>

definition cutoff_mask ::
  "real list \<Rightarrow> real list \<Rightarrow> real list \<Rightarrow> real list \<Rightarrow> 'a galaxy_scheme \<Rightarrow> bool" where
  "cutoff_mask mag_cutoff mass_cutoff ra_cutoff dec_cutoff g =
     (mag g > mag_cutoff ! 0 \<and> mag g < mag_cutoff ! 1
      \<and> Mstar_obs g > mass_cutoff ! 0 \<and> Mstar_obs g < mass_cutoff ! 1
      \<and> z_obs g > mag_cutoff ! 0 \<and> z_obs g < mag_cutoff ! 1
      \<and> - nRA g > ra_cutoff ! 1 \<and> - nRA g < ra_cutoff ! 0
      \<and> Dec g > dec_cutoff ! 0 \<and> Dec g < dec_cutoff ! 1)"

text \<open>
  Lines 95 to 99 and 130 to 134: the default coordinate cutoffs are the limits of the
  catalog, and both are converted to radians.
\<close>

definition ra_cutoff_rad :: "'a ForegroundCatalog \<Rightarrow> real list option \<Rightarrow> real list" where
  "ra_cutoff_rad self ra_cutoff =
     map deg2rad (case ra_cutoff of None \<Rightarrow> [ra_max self, ra_min self] | Some r \<Rightarrow> r)"

definition dec_cutoff_rad :: "'a ForegroundCatalog \<Rightarrow> real list option \<Rightarrow> real list" where
  "dec_cutoff_rad self dec_cutoff =
     map deg2rad (case dec_cutoff of None \<Rightarrow> [dec_min self, dec_max self] | Some d \<Rightarrow> d)"

text \<open>
  The rows the mask selects; indexing a cutoff with fewer than two entries is an
  \<open>IndexError\<close>. The argument \<open>z_cutoff\<close> is received and never read.
\<close>

definition select_galaxies ::
  "'a ForegroundCatalog \<Rightarrow> real list \<Rightarrow> real list \<Rightarrow> real list \<Rightarrow> real list option
     \<Rightarrow> real list option \<Rightarrow> error + 'a galaxy_scheme list" where
  "select_galaxies self mag_cutoff mass_cutoff z_cutoff ra_cutoff dec_cutoff =
     (let ra_c = ra_cutoff_rad self ra_cutoff; dec_c = dec_cutoff_rad self dec_cutoff in
      if length mag_cutoff < 2 \<or> length mass_cutoff < 2 \<or> length ra_c < 2 \<or> length dec_c < 2
      then Inl IndexError
      else Inr (filter (cutoff_mask mag_cutoff mass_cutoff ra_c dec_c) (data self)))"

definition findGalaxies ::
  "'a ForegroundCatalog \<Rightarrow> real list \<Rightarrow> real list \<Rightarrow> real list \<Rightarrow> real list option
     \<Rightarrow> real list option \<Rightarrow> error + (real list \<times> real list \<times> real list)" where
  "findGalaxies self mag_cutoff mass_cutoff z_cutoff ra_cutoff dec_cutoff =
     (case select_galaxies self mag_cutoff mass_cutoff z_cutoff ra_cutoff dec_cutoff of
        Inl err \<Rightarrow> Inl err
      | Inr galaxies \<Rightarrow>
          Inr (map (\<lambda>g. - rad2deg (nRA g)) galaxies,
               map (\<lambda>g. rad2deg (Dec g)) galaxies,
               map Mstar_obs galaxies))"

definition returnGalaxies ::
  "'a ForegroundCatalog \<Rightarrow> real list \<Rightarrow> real list \<Rightarrow> real list \<Rightarrow> real list option
     \<Rightarrow> real list option \<Rightarrow> error + 'a galaxy_scheme list" where
  "returnGalaxies self mag_cutoff mass_cutoff z_cutoff ra_cutoff dec_cutoff =
     select_galaxies self mag_cutoff mass_cutoff z_cutoff ra_cutoff dec_cutoff"

section \<open>The collaborators the specification describes\<close>

text \<open>
  Modelled from the spec: \<open>LineOfSightReconstructor.reconstruct\<close> (section 4.1), the
  function behind the nine-argument call \<open>Reconstruct(Cone, ...)\<close> of lines 169 and 199,
  which the repository does not define. It signals a configuration error when
  \<open>nRealisations <= 0\<close>, when the lightcone catalog is empty, or when the halo mass
  relation is undefined for a stellar mass of the catalog; otherwise it makes
  \<open>nRealisations\<close> draws and returns, for every tracked quantity, the value of each draw.
  The draw itself (\<open>realisation quantity k lightcone\<close>) is not specified and is a
  parameter.
\<close>

definition reconstruct ::
  "('q \<Rightarrow> nat \<Rightarrow> 'g list \<Rightarrow> 'v) \<Rightarrow> 'q list \<Rightarrow> ('g \<Rightarrow> 'm option) \<Rightarrow> 'g list \<Rightarrow> int
     \<Rightarrow> error + 'v ConeResult" where
  "reconstruct realisation quantities massRelation lightcone nRealisations =
     (if nRealisations \<le> 0 then Inl ConfigurationError
      else if lightcone = [] then Inl ConfigurationError
      else if list_ex (\<lambda>g. massRelation g = None) lightcone then Inl ConfigurationError
      else Inr (map (\<lambda>q. map (\<lambda>k. realisation q k lightcone) [0 ..< nat nRealisations])
                  quantities))"

text \<open>
  Modelled from the spec: \<open>CalibrationSetBuilder.build\<close> (section 4.2), the function
  behind \<open>MakeReconstructionCalibration\<close> of line 181, which the repository does not define.
  It signals an error when the set of calibration lightcones is empty; otherwise it
  concatenates, over the calibration lightcones, the triples of the lightcone's true
  \<open>kappa_ext\<close> and \<open>mu_ext\<close> with each entry of the weight column of its ConeResult.
  Which column that is (\<open>weight\<close>) comes from the survey parameters and is a parameter.
\<close>

definition build ::
  "('v ConeResult \<Rightarrow> 'v list) \<Rightarrow> 'v ConeResult list \<Rightarrow> ('v \<times> 'v) list
     \<Rightarrow> error + ('v \<times> 'v \<times> 'v) list" where
  "build weight coneResults groundTruth =
     (if coneResults = [] then Inl DataError
      else Inr (concat (map (\<lambda>(r, truth). map (\<lambda>w. (fst truth, snd truth, w)) (weight r))
                          (zip coneResults groundTruth))))"

section \<open>Auxiliary definitions\<close>

text \<open>Every option of the list is \<open>-h\<close> or \<open>--help\<close>.\<close>

definition help_only :: "(string \<times> string) list \<Rightarrow> bool" where
  "help_only opts = list_all (\<lambda>oa. fst oa = ''-h'' \<or> fst oa = ''--help'') opts"

text \<open>
  The arguments that \<open>getopt\<close> reads as options are the leading flags: the arguments
  before the first one that does not start with a dash, is the single dash, or is
  \<open>--\<close>. What is left after them, without a leading \<open>--\<close>, are the program
  arguments.
\<close>

definition is_flag :: "string \<Rightarrow> bool" where
  "is_flag a = (startswith a ''-'' \<and> a \<noteq> ''-'' \<and> a \<noteq> ''--'')"

definition leading_flags :: "string list \<Rightarrow> string list" where
  "leading_flags argv = takeWhile is_flag argv"

definition positional :: "string list \<Rightarrow> string list" where
  "positional argv =
     (case dropWhile is_flag argv of
        [] \<Rightarrow> []
      | a # rest \<Rightarrow> if a = ''--'' then rest else a # rest)"

text \<open>
  The ways of writing \<open>-h\<close> and \<open>--help\<close>: a non-empty prefix of \<open>--help\<close>, or a
  cluster \<open>-h\<close>, \<open>-hh\<close>, and so on.
\<close>

definition help_form :: "string \<Rightarrow> bool" where
  "help_form a =
     (a = ''--h'' \<or> a = ''--he'' \<or> a = ''--hel'' \<or> a = ''--help'' \<or>
      startswith a ''-h'' \<and> list_all (\<lambda>c. c = CHR ''h'') (drop 1 a))"

text \<open>
  The call that lines 209 to 215 make for a lightcone: the median of entry 3 of its
  ConeResult, the width, and the flag, which is false exactly for \<open>kappa\<close>.
\<close>

definition expected_call :: "('v, 'r) collaborators \<Rightarrow> 'w env \<Rightarrow> string \<Rightarrow> 'v \<times> real \<times> bool" where
  "expected_call c e Cone =
     (case Reconstruct_cone c Cone (Nrealisation e) truncationscale of
        Inr ConeResult \<Rightarrow> (median c (ConeResult ! 3), 0.01, WeightParameter1 e \<noteq> kappa e)
      | Inl err \<Rightarrow> (median c [], 0.01, WeightParameter1 e \<noteq> kappa e))"

text \<open>
  The reconstruction of the lightcone returns a ConeResult with an entry 3, and
  \<open>WeightParameter1\<close> selects a branch.
\<close>

definition reaches_calibration :: "('v, 'r) collaborators \<Rightarrow> 'w env \<Rightarrow> string \<Rightarrow> bool" where
  "reaches_calibration c e Cone =
     (case Reconstruct_cone c Cone (Nrealisation e) truncationscale of
        Inr ConeResult \<Rightarrow> 3 < length ConeResult \<and>
          (WeightParameter1 e = kappa e \<or> WeightParameter1 e = mu e)
      | Inl err \<Rightarrow> False)"

text \<open>
  \<open>Result\<close> is bound only when \<open>WeightParameter1\<close> selects a branch.
\<close>

definition bound_ok :: "'w env \<Rightarrow> ('v, 'r) state \<Rightarrow> bool" where
  "bound_ok e s = (Result s = None \<or> WeightParameter1 e = kappa e \<or> WeightParameter1 e = mu e)"

text \<open>
  No calibration call has been made and \<open>Result\<close> is unbound.
\<close>

definition untouched :: "('v, 'r) state \<Rightarrow> bool" where
  "untouched s = (calibrate_calls (trace s) = [] \<and> Result s = None)"

text \<open>
  The script up to line 183, before the real lightcones.
\<close>

definition before_real ::
  "('v, 'r) collaborators \<Rightarrow> 'w env \<Rightarrow> ('v, 'r) state outcome" where
  "before_real c e =
     and_then (and_then (and_then
       (make_cones c e \<lparr>trace = [], Result = None\<rparr>)
       (define_objects c e))
       (calibration_phase c e))
       (build_calibration c e)"



section \<open>Examples\<close>

text \<open>
  The median of a sample as \<open>numpy.median\<close> computes it over exact numbers: the
  middle value of the sorted sample, or the mean of the two middle values. (An empty sample,
  which numpy answers with nan, is given 0; the examples take none.)
\<close>

definition sample_median :: "real list \<Rightarrow> real" where
  "sample_median xs =
     (let s = sort xs; n = length s in
      if n = 0 then 0
      else if even n then (s ! (n div 2 - 1) + s ! (n div 2)) / 2
      else s ! (n div 2))"

text \<open>
  Collaborators for the examples: one calibration lightcone, two real lightcones with a
  weight column of three and of four samples, and calls that all succeed.
\<close>

definition example_collaborators :: "(real, (real \<times> real \<times> real) list) collaborators" where
  "example_collaborators =
     \<lparr>glob = (\<lambda>pattern. if pattern = ''cal/*'' then [''cal/a'']
                        else if pattern = ''real/*'' then [''real/a'', ''real/b''] else []),
      median = sample_median,
      MakeCones = (\<lambda>n pattern r. None),
      load_objects = None,
      WeightingScheme = (\<lambda>Cone. Inr []),
      Reconstruct_cone = (\<lambda>Cone n t.
        if Cone = ''real/b'' then Inr [[1, 2, 3, 4], [1, 1, 1, 1], [0, 0, 0, 0], [8, 2, 4, 6]]
        else Inr [[1, 2, 3], [1, 1, 1], [0, 0, 0], [5, 7, 6]]),
      MakeReconstructionCalibration = (\<lambda>directory name. None),
      MakeWeightCalibration = (\<lambda>directory name. None),
      CalibrateResult = (\<lambda>directory name Value width magnification. Inr [(Value, 1, Value)])\<rparr>"

text \<open>
  An environment for the examples, with reconstruction, the weight parameter \<open>mu\<close>
  and a configured calibration width of \<open>0.05\<close>.
\<close>

definition example_env :: "string env" where
  "example_env =
     \<lparr>calibrationcones = ''cal/*'', realcones = ''real/*'', surveyname = ''s'',
      CalibrationResultsDirectory = ''c'', RealResultsDirectory = ''r'',
      CreateNewCalibrationLightones = False, DoReconstruction = True, Nrealisation = 4,
      WeightParameter1 = ''mu'', kappa = ''kappa'', mu = ''mu'', calibrationWidth = 0.05\<rparr>"


text \<open>A catalog of one galaxy at the centre of a two-degree field, for the examples.\<close>

definition example_galaxy :: galaxy where
  "example_galaxy = \<lparr>nRA = 0, Dec = 0, mag = 22, Mstar_obs = 10 ^ 10, z_obs = 1/2\<rparr>"

definition example_catalog :: "unit ForegroundCatalog" where
  "example_catalog =
     \<lparr>data = [example_galaxy], ra_max = 1, ra_min = -1, dec_max = 1, dec_min = -1\<rparr>"

section \<open>Properties of the command line\<close>

lemma short_has_arg_h: "short_has_arg opt ''h'' = Inr b \<Longrightarrow> opt = CHR ''h'' \<and> \<not> b"
  by (auto simp: startswith_def split: if_splits)

lemma short_has_arg_err: "short_has_arg opt shortopts = Inl e \<Longrightarrow> \<exists>msg. e = GetoptError msg"
  by (induction shortopts) (auto split: if_splits)

lemma help_only_snoc_h: "help_only opts \<Longrightarrow> help_only (opts @ [(''-h'', a)])"
  by (simp add: help_only_def)

lemma help_only_snoc_help: "help_only opts \<Longrightarrow> help_only (opts @ [(''--help'', a)])"
  by (simp add: help_only_def)

lemma do_shorts_h:
  "help_only opts \<Longrightarrow> do_shorts opts optstring ''h'' args = Inr (opts', args') \<Longrightarrow> help_only opts'"
proof (induction optstring arbitrary: opts)
  case Nil
  then show ?case by simp
next
  case (Cons c cs)
  from Cons.prems(2) obtain b where b: "short_has_arg c ''h'' = Inr b"
    by (cases "short_has_arg c ''h''") auto
  then have c: "c = CHR ''h''" and nb: "\<not> b" using short_has_arg_h by blast+
  from Cons.prems(2) b nb have "do_shorts (opts @ [(''-'' @ [c], '''')]) cs ''h'' args = Inr (opts', args')"
    by (simp del: short_has_arg.simps)
  moreover have "help_only (opts @ [(''-'' @ [c], '''')])"
    using Cons.prems(1) c help_only_snoc_h by simp
  ultimately show ?case using Cons.IH by blast
qed

lemma do_shorts_err:
  "do_shorts opts optstring shortopts args = Inl e \<Longrightarrow> \<exists>msg. e = GetoptError msg"
proof (induction optstring arbitrary: opts)
  case Nil
  then show ?case by simp
next
  case (Cons c cs)
  show ?case
  proof (cases "short_has_arg c shortopts")
    case (Inl e')
    with Cons.prems have "e = e'" by simp
    with Inl short_has_arg_err show ?thesis by blast
  next
    case (Inr b)
    with Cons show ?thesis
      by (cases b; cases args; cases "cs = []") auto
  qed
qed

lemma long_has_args_help:
  assumes "long_has_args opt [''help''] = Inr (b, name)"
  shows "\<not> b \<and> name = ''help''"
proof (cases "startswith ''help'' opt")
  case False
  with assms show ?thesis by (simp add: long_has_args_def)
next
  case True
  have ne: "opt @ ''='' \<noteq> ''help''"
  proof
    assume "opt @ ''='' = ''help''"
    then have "last (opt @ ''='') = last ''help''" by simp
    then show False by simp
  qed
  show ?thesis
  proof (cases "opt = ''help''")
    case True
    with assms show ?thesis by (simp add: long_has_args_def startswith_def)
  next
    case False
    with assms True ne show ?thesis
      by (simp add: long_has_args_def endswith_eq_def)
  qed
qed

lemma long_has_args_err: "long_has_args opt longopts = Inl e \<Longrightarrow> \<exists>msg. e = GetoptError msg"
  by (auto simp: long_has_args_def Let_def split: if_splits)

lemma do_longs_help:
  assumes "help_only opts" and "do_longs opts opt0 [''help''] args = Inr (opts', args')"
  shows "help_only opts'"
proof -
  obtain opt1 optarg where s: "split_eq opt0 = (opt1, optarg)" by (cases "split_eq opt0")
  from assms(2) s obtain b name where l: "long_has_args opt1 [''help''] = Inr (b, name)"
    by (cases "long_has_args opt1 [''help'']") (auto simp: do_longs_def)
  then have nb: "\<not> b" and name: "name = ''help''" using long_has_args_help by blast+
  from assms(2) s l nb name have "opts' = opts @ [(''--help'', [])]"
    by (cases optarg) (auto simp: do_longs_def)
  with assms(1) help_only_snoc_help show ?thesis by simp
qed

lemma do_longs_err:
  assumes "do_longs opts opt0 longopts args = Inl e"
  shows "\<exists>msg. e = GetoptError msg"
proof -
  obtain opt1 optarg where s: "split_eq opt0 = (opt1, optarg)" by (cases "split_eq opt0")
  show ?thesis
  proof (cases "long_has_args opt1 longopts")
    case (Inl e')
    with assms s have "e = e'" by (simp add: do_longs_def)
    with Inl long_has_args_err show ?thesis by blast
  next
    case (Inr p)
    obtain b name where p: "p = (b, name)" by (cases p)
    with assms s Inr show ?thesis
      by (cases b; cases optarg; cases args) (auto simp: do_longs_def)
  qed
qed

lemma getopt_loop_help:
  "help_only opts \<Longrightarrow> getopt_loop opts args ''h'' [''help''] = Inr (opts', args') \<Longrightarrow> help_only opts'"
proof (induction opts args "''h''" "[''help'']" arbitrary: opts' args' rule: getopt_loop.induct)
  case (1 opts)
  then show ?case by simp
next
  case (2 opts a rest)
  show ?case
  proof (cases "startswith a ''-'' \<and> a \<noteq> ''-''")
    case False
    with "2.prems" show ?thesis by auto
  next
    case flag: True
    show ?thesis
    proof (cases "a = ''--''")
      case True
      with "2.prems" flag show ?thesis by simp
    next
      case nd: False
      show ?thesis
      proof (cases "startswith a ''--''")
        case True
        with "2.prems"(2) flag nd obtain o1 a1 where
          d: "do_longs opts (drop 2 a) [''help''] rest = Inr (o1, a1)"
          and g: "getopt_loop o1 a1 ''h'' [''help''] = Inr (opts', args')"
          by (cases "do_longs opts (drop 2 a) [''help''] rest") auto
        from d "2.prems"(1) have "help_only o1" using do_longs_help by blast
        with "2.hyps"(1) [OF flag nd True d refl] g show ?thesis by blast
      next
        case False
        with "2.prems"(2) flag nd obtain o1 a1 where
          d: "do_shorts opts (drop 1 a) ''h'' rest = Inr (o1, a1)"
          and g: "getopt_loop o1 a1 ''h'' [''help''] = Inr (opts', args')"
          by (cases "do_shorts opts (drop 1 a) ''h'' rest") auto
        from d "2.prems"(1) have "help_only o1" using do_shorts_h by blast
        with "2.hyps"(2) [OF flag nd False d refl] g show ?thesis by blast
      qed
    qed
  qed
qed

lemma getopt_loop_err:
  "getopt_loop opts args shortopts longopts = Inl e \<Longrightarrow> \<exists>msg. e = GetoptError msg"
proof (induction opts args shortopts longopts rule: getopt_loop.induct)
  case (1 opts shortopts longopts)
  then show ?case by simp
next
  case (2 opts a rest shortopts longopts)
  show ?case
  proof (cases "startswith a ''-'' \<and> a \<noteq> ''-''")
    case False
    with "2.prems" show ?thesis by auto
  next
    case flag: True
    show ?thesis
    proof (cases "a = ''--''")
      case True
      with "2.prems" flag show ?thesis by simp
    next
      case nd: False
      show ?thesis
      proof (cases "startswith a ''--''")
        case True
        show ?thesis
        proof (cases "do_longs opts (drop 2 a) longopts rest")
          case (Inl e')
          with "2.prems" flag nd True have "e = e'" by simp
          with Inl do_longs_err show ?thesis by blast
        next
          case (Inr p)
          obtain o1 a1 where p: "p = (o1, a1)" by (cases p)
          with "2.prems" flag nd True Inr have "getopt_loop o1 a1 shortopts longopts = Inl e" by simp
          with "2.IH"(1) [OF flag nd True Inr [unfolded p] refl] show ?thesis by blast
        qed
      next
        case False
        show ?thesis
        proof (cases "do_shorts opts (drop 1 a) shortopts rest")
          case (Inl e')
          with "2.prems" flag nd False have "e = e'" by simp
          with Inl do_shorts_err show ?thesis by blast
        next
          case (Inr p)
          obtain o1 a1 where p: "p = (o1, a1)" by (cases p)
          with "2.prems" flag nd False Inr have "getopt_loop o1 a1 shortopts longopts = Inl e" by simp
          with "2.IH"(2) [OF flag nd False Inr [unfolded p] refl] show ?thesis by blast
        qed
      qed
    qed
  qed
qed

lemma do_shorts_grows:
  "do_shorts opts optstring shortopts args = Inr (opts', args') \<Longrightarrow> length opts \<le> length opts'"
proof (induction optstring arbitrary: opts)
  case Nil
  then show ?case by simp
next
  case (Cons c cs)
  show ?case
  proof (cases "short_has_arg c shortopts")
    case (Inl e')
    with Cons.prems show ?thesis by simp
  next
    case (Inr b)
    show ?thesis
    proof (cases b)
      case True
      with Cons.prems Inr show ?thesis
        by (cases args; cases "cs = []") auto
    next
      case False
      with Cons.prems Inr have "do_shorts (opts @ [(''-'' @ [c], [])]) cs shortopts args = Inr (opts', args')"
        by simp
      from Cons.IH [OF this] show ?thesis by simp
    qed
  qed
qed

lemma do_longs_grows:
  assumes "do_longs opts opt0 longopts args = Inr (opts', args')"
  shows "length opts \<le> length opts'"
proof -
  obtain opt1 optarg where s: "split_eq opt0 = (opt1, optarg)" by (cases "split_eq opt0")
  show ?thesis
  proof (cases "long_has_args opt1 longopts")
    case (Inl e')
    with assms s show ?thesis by (simp add: do_longs_def)
  next
    case (Inr p)
    obtain b name where p: "p = (b, name)" by (cases p)
    with assms s Inr show ?thesis
      by (cases b; cases optarg; cases args) (auto simp: do_longs_def)
  qed
qed

lemma getopt_loop_grows:
  "getopt_loop opts args shortopts longopts = Inr (opts', args') \<Longrightarrow> length opts \<le> length opts'"
proof (induction opts args shortopts longopts rule: getopt_loop.induct)
  case (1 opts shortopts longopts)
  then show ?case by simp
next
  case (2 opts a rest shortopts longopts)
  show ?case
  proof (cases "startswith a ''-'' \<and> a \<noteq> ''-''")
    case False
    with "2.prems" show ?thesis by auto
  next
    case flag: True
    show ?thesis
    proof (cases "a = ''--''")
      case True
      with "2.prems" flag show ?thesis by simp
    next
      case nd: False
      show ?thesis
      proof (cases "startswith a ''--''")
        case True
        with "2.prems" flag nd obtain o1 a1 where
          d: "do_longs opts (drop 2 a) longopts rest = Inr (o1, a1)"
          and g: "getopt_loop o1 a1 shortopts longopts = Inr (opts', args')"
          by (cases "do_longs opts (drop 2 a) longopts rest") auto
        from "2.IH"(1) [OF flag nd True d refl g] do_longs_grows [OF d] show ?thesis by simp
      next
        case False
        with "2.prems" flag nd obtain o1 a1 where
          d: "do_shorts opts (drop 1 a) shortopts rest = Inr (o1, a1)"
          and g: "getopt_loop o1 a1 shortopts longopts = Inr (opts', args')"
          by (cases "do_shorts opts (drop 1 a) shortopts rest") auto
        from "2.IH"(2) [OF flag nd False d refl g] do_shorts_grows [OF d] show ?thesis by simp
      qed
    qed
  qed
qed

lemma option_loop_help:
  "help_only opts \<Longrightarrow> opts \<noteq> [] \<Longrightarrow>
   option_loop opts = Some \<lparr>printed = [Usage], configfile = None, raised = None\<rparr>"
  by (cases opts) (auto simp: help_only_def)

lemma getopt_help: "getopt argv ''h'' [''help''] = Inr (opts, args) \<Longrightarrow> help_only opts"
  unfolding getopt_def using getopt_loop_help [of "[]" argv opts args] by (simp add: help_only_def)

lemma Reconstruct_rejected:
  assumes "getopt argv ''h'' [''help''] = Inl e"
  shows "\<exists>msg. e = GetoptError msg \<and>
    Reconstruct argv = \<lparr>printed = [Text msg, Usage], configfile = None, raised = None\<rparr>"
proof -
  from assms obtain msg where "e = GetoptError msg"
    unfolding getopt_def using getopt_loop_err by blast
  with assms show ?thesis by (simp add: Reconstruct_def)
qed

lemma Reconstruct_options:
  assumes "getopt argv ''h'' [''help''] = Inr (opts, args)" and "opts \<noteq> []"
  shows "Reconstruct argv = \<lparr>printed = [Usage], configfile = None, raised = None\<rparr>"
  using assms option_loop_help [OF getopt_help [OF assms(1)] assms(2)]
  by (simp add: Reconstruct_def)

lemma Reconstruct_no_options:
  assumes "getopt argv ''h'' [''help''] = Inr ([], args)"
  shows "Reconstruct argv =
    (if length args = 1 then
       \<lparr>printed = [Text (''Reconstructing the halo mass in various lightcones, according to instructions in '' @ hd args)],
        configfile = Some (hd args), raised = None\<rparr>
     else \<lparr>printed = [Usage], configfile = None, raised = None\<rparr>)"
  using assms by (simp add: Reconstruct_def)

lemma Reconstruct_never_raises: "raised (Reconstruct argv) = None"
proof (cases "getopt argv ''h'' [''help'']")
  case (Inl e)
  with Reconstruct_rejected show ?thesis by fastforce
next
  case (Inr p)
  obtain opts args where p: "p = (opts, args)" by (cases p)
  show ?thesis
  proof (cases "opts = []")
    case True
    with Inr p Reconstruct_no_options [of argv args] show ?thesis by simp
  next
    case False
    with Inr p Reconstruct_options [of argv opts args] show ?thesis by simp
  qed
qed

lemma short_unrecognized:
  assumes "c \<noteq> CHR ''h''"  and "c \<noteq> CHR ''-''"
  shows "getopt ((CHR ''-'' # c # cs) # rest) ''h'' [''help''] =
     Inl (GetoptError (''option -'' @ [c] @ '' not recognized''))"
  using assms by (simp add: getopt_def startswith_def)

lemma long_unrecognized:
  assumes "\<not> startswith ''help'' (fst (split_eq name))"
  shows "getopt ((''--'' @ name) # rest) ''h'' [''help''] =
     Inl (GetoptError (''option --'' @ fst (split_eq name) @ '' not recognized''))"
proof -
  from assms have ne: "name \<noteq> []" by (auto simp: startswith_def)
  then have "''--'' @ name \<noteq> ''--''" by simp
  moreover have "long_has_args (fst (split_eq name)) [''help''] =
      Inl (GetoptError (''option --'' @ fst (split_eq name) @ '' not recognized''))"
    using assms by (simp add: long_has_args_def)
  ultimately show ?thesis
    by (cases "split_eq name") (simp add: getopt_def startswith_def do_longs_def)
qed

text \<open>
  Claim C10. With the option string \<open>h\<close> and the long option \<open>help\<close>, every option
  that \<open>getopt\<close> returns is \<open>-h\<close> or \<open>--help\<close>, so the loop over the options
  never reaches \<open>assert False, "unhandled option"\<close>: no call of \<open>Reconstruct\<close> ends
  with that assertion error.
\<close>

theorem unhandled_option_unreachable:
  "raised (Reconstruct argv) \<noteq> Some (AssertionError ''unhandled option'') \<and>
   (getopt argv ''h'' [''help''] = Inr (opts, args) \<longrightarrow>
      (\<forall>oa \<in> set opts. fst oa = ''-h'' \<or> fst oa = ''--help''))"
proof -
  have "\<forall>oa \<in> set opts. fst oa = ''-h'' \<or> fst oa = ''--help''"
    if "getopt argv ''h'' [''help''] = Inr (opts, args)"
    using getopt_help [OF that] by (simp add: help_only_def list_all_iff)
  then show ?thesis using Reconstruct_never_raises [of argv] by simp
qed

lemma getopt_example:
  "getopt [''-hh'', ''--he'', ''survey.config''] ''h'' [''help''] =
     Inr ([(''-h'', []), (''-h'', []), (''--help'', [])], [''survey.config''])"
  by code_simp

theorem unhandled_option_unreachable_witness:
  "getopt [''-hh'', ''--he'', ''survey.config''] ''h'' [''help''] =
     Inr ([(''-h'', []), (''-h'', []), (''--help'', [])], [''survey.config'']) \<and>
   raised (Reconstruct [''-hh'', ''--he'', ''survey.config'']) \<noteq>
     Some (AssertionError ''unhandled option'') \<and>
   list_all (\<lambda>oa. fst oa = ''-h'' \<or> fst oa = ''--help'')
     [(''-h'', []), (''-h'', []), (''--help'', [])]"
  using unhandled_option_unreachable [of "[''-hh'', ''--he'', ''survey.config'']"
      "[(''-h'', []), (''-h'', []), (''--help'', [])]" "[''survey.config'']"]
    getopt_example
  by simp

text \<open>The entry point of the script never reaches the call.\<close>

lemma script_entry_raises:
  "script_entry argv = \<lparr>printed = [], configfile = None, raised = Some (NameError ''sys'')\<rparr>"
  by (simp add: script_entry_def bound_names_def)

lemma do_shorts_cluster:
  "list_all (\<lambda>c. c = CHR ''h'') cs \<Longrightarrow>
   do_shorts opts cs ''h'' args = Inr (opts @ map (\<lambda>c. (''-h'', [])) cs, args)"
proof (induction cs arbitrary: opts)
  case Nil
  show ?case by simp
next
  case (Cons c cs)
  then have c: "c = CHR ''h''" and rest: "list_all (\<lambda>c. c = CHR ''h'') cs" by simp_all
  from Cons.IH [OF rest, of "opts @ [(''-h'', [])]"] c show ?case
    by (simp add: startswith_def)
qed

lemma do_shorts_bad:
  "\<not> list_all (\<lambda>c. c = CHR ''h'') cs \<Longrightarrow>
   \<exists>msg. do_shorts opts cs ''h'' args = Inl (GetoptError msg)"
proof (induction cs arbitrary: opts)
  case Nil
  then show ?case by simp
next
  case (Cons c cs)
  show ?case
  proof (cases "c = CHR ''h''")
    case True
    with Cons.prems have "\<not> list_all (\<lambda>c. c = CHR ''h'') cs" by simp
    from Cons.IH [OF this, of "opts @ [(''-h'', [])]"] True show ?thesis
      by (simp add: startswith_def)
  next
    case False
    then show ?thesis by simp
  qed
qed

lemma startswith_help:
  "startswith ''help'' name \<longleftrightarrow>
     name = [] \<or> name = ''h'' \<or> name = ''he'' \<or> name = ''hel'' \<or> name = ''help''"
proof
  assume "startswith ''help'' name"
  then have h: "take (length name) ''help'' = name" by (simp add: startswith_def)
  from arg_cong [OF h, of length] have "length name \<le> 4" by simp
  then consider "length name = 0" | "length name = Suc 0" | "length name = Suc (Suc 0)"
    | "length name = Suc (Suc (Suc 0))" | "length name = Suc (Suc (Suc (Suc 0)))"
    by linarith
  then show "name = [] \<or> name = ''h'' \<or> name = ''he'' \<or> name = ''hel'' \<or> name = ''help''"
  proof cases
    case 1
    then show ?thesis by simp
  next
    case 2
    with h have "name = ''h''" by simp
    then show ?thesis by simp
  next
    case 3
    with h have "name = ''he''" by simp
    then show ?thesis by simp
  next
    case 4
    with h have "name = ''hel''" by simp
    then show ?thesis by simp
  next
    case 5
    with h have "name = ''help''" by simp
    then show ?thesis by simp
  qed
next
  assume "name = [] \<or> name = ''h'' \<or> name = ''he'' \<or> name = ''hel'' \<or> name = ''help''"
  then show "startswith ''help'' name" by (auto simp: startswith_def)
qed

lemma split_eq_None: "split_eq s = (n, None) \<Longrightarrow> n = s"
  by (induction s arbitrary: n) (auto split: if_splits prod.splits)

lemma do_longs_prefix:
  assumes "name = ''h'' \<or> name = ''he'' \<or> name = ''hel'' \<or> name = ''help''"
  shows "do_longs opts name [''help''] args = Inr (opts @ [(''--help'', [])], args)"
  using assms by (auto simp: do_longs_def long_has_args_def startswith_def endswith_eq_def)

lemma do_longs_bad:
  assumes "name \<noteq> []" and "name \<noteq> ''h''" and "name \<noteq> ''he''" and "name \<noteq> ''hel''"
    and "name \<noteq> ''help''"
  shows "\<exists>msg. do_longs opts name [''help''] args = Inl (GetoptError msg)"
proof (cases "do_longs opts name [''help''] args")
  case (Inl e)
  with do_longs_err show ?thesis by blast
next
  case (Inr p)
  obtain n1 optarg where s: "split_eq name = (n1, optarg)" by (cases "split_eq name")
  from Inr s obtain b nm where l: "long_has_args n1 [''help''] = Inr (b, nm)"
    by (cases "long_has_args n1 [''help'']") (auto simp: do_longs_def)
  then have nb: "\<not> b" using long_has_args_help by blast
  from l have sw: "startswith ''help'' n1"
    by (auto simp: long_has_args_def split: if_splits)
  from Inr s l nb have "optarg = None"
    by (cases optarg) (auto simp: do_longs_def)
  with s have "n1 = name" using split_eq_None by blast
  with sw assms show ?thesis by (simp add: startswith_help)
qed

lemma flag_step_ok:
  assumes "is_flag a" and "help_form a"
  shows "\<exists>new. new \<noteq> [] \<and>
    getopt_loop opts (a # rest) ''h'' [''help''] = getopt_loop (opts @ new) rest ''h'' [''help'']"
proof (cases "a = ''--h'' \<or> a = ''--he'' \<or> a = ''--hel'' \<or> a = ''--help''")
  case True
  then have "drop 2 a = ''h'' \<or> drop 2 a = ''he'' \<or> drop 2 a = ''hel'' \<or> drop 2 a = ''help''"
    by auto
  from do_longs_prefix [OF this, of opts rest]
  have d: "do_longs opts (drop 2 a) [''help''] rest = Inr (opts @ [(''--help'', [])], rest)" .
  from True have "startswith a ''-''" "a \<noteq> ''-''" "a \<noteq> ''--''" "startswith a ''--''"
    by (auto simp: startswith_def)
  with d have "getopt_loop opts (a # rest) ''h'' [''help''] =
      getopt_loop (opts @ [(''--help'', [])]) rest ''h'' [''help'']"
    by simp
  then show ?thesis by blast
next
  case False
  with assms(2) have sw: "startswith a ''-h''" and allh: "list_all (\<lambda>c. c = CHR ''h'') (drop 1 a)"
    by (auto simp: help_form_def)
  from sw obtain cs where a: "a = CHR ''-'' # CHR ''h'' # cs"
    by (cases a; cases "tl a") (auto simp: startswith_def)
  from do_shorts_cluster [OF allh, of opts rest]
  have d: "do_shorts opts (drop 1 a) ''h'' rest =
      Inr (opts @ map (\<lambda>c. (''-h'', [])) (drop 1 a), rest)" .
  from a have "startswith a ''-''" "a \<noteq> ''-''" "a \<noteq> ''--''" "\<not> startswith a ''--''"
    by (auto simp: startswith_def)
  with d have "getopt_loop opts (a # rest) ''h'' [''help''] =
      getopt_loop (opts @ map (\<lambda>c. (''-h'', [])) (drop 1 a)) rest ''h'' [''help'']"
    by simp
  moreover from a have "map (\<lambda>c. (''-h'', [])) (drop 1 a) \<noteq> []" by simp
  ultimately show ?thesis by blast
qed

lemma flag_step_bad:
  assumes "is_flag a" and "\<not> help_form a"
  shows "\<exists>msg. getopt_loop opts (a # rest) ''h'' [''help''] = Inl (GetoptError msg)"
proof (cases "startswith a ''--''")
  case True
  then have a: "a = ''--'' @ drop 2 a"
    by (metis append_take_drop_id length_Cons list.size(3) numeral_2_eq_2 startswith_def)
  from assms(1) a have ne: "drop 2 a \<noteq> []" by (auto simp: is_flag_def)
  have "drop 2 a \<noteq> ''h''" "drop 2 a \<noteq> ''he''" "drop 2 a \<noteq> ''hel''" "drop 2 a \<noteq> ''help''"
    using assms(2) a by (auto simp: help_form_def)
  from do_longs_bad [OF ne this, of opts rest] obtain msg where
    "do_longs opts (drop 2 a) [''help''] rest = Inl (GetoptError msg)" by blast
  with True assms(1) show ?thesis by (auto simp: is_flag_def)
next
  case False
  from assms(1) obtain cs where a: "a = CHR ''-'' # cs" and cs: "cs \<noteq> []"
    by (cases a) (auto simp: is_flag_def startswith_def)
  have "\<not> list_all (\<lambda>c. c = CHR ''h'') cs"
  proof
    assume allh: "list_all (\<lambda>c. c = CHR ''h'') cs"
    with cs obtain cs' where "cs = CHR ''h'' # cs'" by (cases cs) auto
    with a allh have "help_form a" by (simp add: help_form_def startswith_def)
    with assms(2) show False by simp
  qed
  from do_shorts_bad [OF this, of opts rest] obtain msg where
    "do_shorts opts cs ''h'' rest = Inl (GetoptError msg)" by blast
  with False assms(1) a show ?thesis by (auto simp: is_flag_def)
qed

lemma flag_stop:
  assumes "\<not> is_flag a"
  shows "getopt_loop opts (a # rest) shortopts longopts =
      Inr (opts, if a = ''--'' then rest else a # rest)"
  using assms by (auto simp: is_flag_def startswith_def)

lemma getopt_loop_accepts:
  "list_all help_form (leading_flags argv) \<Longrightarrow>
   \<exists>new. getopt_loop opts argv ''h'' [''help''] = Inr (opts @ new, positional argv) \<and>
         (new = [] \<longleftrightarrow> leading_flags argv = [])"
proof (induction argv arbitrary: opts)
  case Nil
  show ?case by (simp add: positional_def leading_flags_def)
next
  case (Cons a rest)
  show ?case
  proof (cases "is_flag a")
    case False
    with flag_stop [OF False, of opts rest "''h''" "[''help'']"] show ?thesis
      by (simp add: positional_def leading_flags_def)
  next
    case True
    with Cons.prems have hf: "help_form a" and tl: "list_all help_form (leading_flags rest)"
      by (simp_all add: leading_flags_def)
    from flag_step_ok [OF True hf, of opts rest] obtain new where new: "new \<noteq> []"
      and step: "getopt_loop opts (a # rest) ''h'' [''help''] =
        getopt_loop (opts @ new) rest ''h'' [''help'']" by blast
    from Cons.IH [OF tl, of "opts @ new"] obtain new' where
      "getopt_loop (opts @ new) rest ''h'' [''help''] = Inr ((opts @ new) @ new', positional rest)"
      by blast
    with step True new show ?thesis
      by (intro exI [of _ "new @ new'"]) (simp add: positional_def leading_flags_def)
  qed
qed

lemma getopt_loop_rejects:
  "\<not> list_all help_form (leading_flags argv) \<Longrightarrow>
   \<exists>msg. getopt_loop opts argv ''h'' [''help''] = Inl (GetoptError msg)"
proof (induction argv arbitrary: opts)
  case Nil
  then show ?case by (simp add: leading_flags_def)
next
  case (Cons a rest)
  show ?case
  proof (cases "is_flag a")
    case False
    with Cons.prems show ?thesis by (simp add: leading_flags_def)
  next
    case True
    show ?thesis
    proof (cases "help_form a")
      case False
      from flag_step_bad [OF True False] show ?thesis .
    next
      case hf: True
      with Cons.prems True have "\<not> list_all help_form (leading_flags rest)"
        by (simp add: leading_flags_def)
      moreover from flag_step_ok [OF True hf, of opts rest] obtain new where
        "getopt_loop opts (a # rest) ''h'' [''help''] =
          getopt_loop (opts @ new) rest ''h'' [''help'']" by blast
      ultimately show ?thesis using Cons.IH [of "opts @ new"] by simp
    qed
  qed
qed

lemma Reconstruct_help_flags:
  assumes "leading_flags argv \<noteq> []" and "list_all help_form (leading_flags argv)"
  shows "Reconstruct argv = \<lparr>printed = [Usage], configfile = None, raised = None\<rparr>"
proof -
  from getopt_loop_accepts [OF assms(2), of "[]"] assms(1) obtain new where
    "getopt argv ''h'' [''help''] = Inr (new, positional argv)" and "new \<noteq> []"
    by (auto simp: getopt_def)
  then show ?thesis using Reconstruct_options by blast
qed

lemma Reconstruct_other_flag:
  assumes "\<not> list_all help_form (leading_flags argv)"
  shows "\<exists>msg. Reconstruct argv = \<lparr>printed = [Text msg, Usage], configfile = None, raised = None\<rparr>"
proof -
  from getopt_loop_rejects [OF assms, of "[]"] obtain msg where
    "getopt argv ''h'' [''help''] = Inl (GetoptError msg)"
    by (auto simp: getopt_def)
  from Reconstruct_rejected [OF this] show ?thesis by auto
qed

lemma Reconstruct_no_flags:
  assumes "leading_flags argv = []"
  shows "Reconstruct argv =
    (if length (positional argv) = 1 then
       \<lparr>printed = [Text (''Reconstructing the halo mass in various lightcones, according to instructions in '' @ hd (positional argv))],
        configfile = Some (hd (positional argv)), raised = None\<rparr>
     else \<lparr>printed = [Usage], configfile = None, raised = None\<rparr>)"
proof -
  from assms have "list_all help_form (leading_flags argv)" by simp
  from getopt_loop_accepts [OF this, of "[]"] assms
  have "getopt argv ''h'' [''help''] = Inr ([], positional argv)"
    by (auto simp: getopt_def)
  from Reconstruct_no_options [OF this] show ?thesis .
qed

text \<open>
  Claim C8 as stated fails: \<open>--bogus\<close> after the configuration file is a flag other than
  \<open>-h\<close> and \<open>--help\<close>, and the call reports no option error; it prints the usage
  text, as for any call with two program arguments.
\<close>

theorem other_flag_counterexample:
  "''--bogus'' \<noteq> ''-h'' \<and> ''--bogus'' \<noteq> ''--help'' \<and>
   Reconstruct [''survey.config'', ''--bogus''] =
     \<lparr>printed = [Usage], configfile = None, raised = None\<rparr>"
  by code_simp

text \<open>
  Claim C8, as the code has it, for the call \<open>Reconstruct(argv)\<close> and every argument
  vector. When there are leading flags and each is a way of writing \<open>-h\<close> or
  \<open>--help\<close>, the call prints the usage text and nothing else. When some leading flag is
  anything else, the call prints the message of the \<open>GetoptError\<close> and then the usage
  text; for a first short flag other than \<open>-h\<close> and for a first long flag whose name is
  not a prefix of \<open>help\<close> the message is \<open>option ... not recognized\<close>. In both cases
  the call returns without raising and binds no configuration file. When there is no
  leading flag, flags further on are program arguments and no option error is reported:
  the call binds the configuration file when there is exactly one program argument and
  prints the usage text otherwise.
\<close>

theorem cli_flag_handling:
  "(leading_flags argv \<noteq> [] \<and> list_all help_form (leading_flags argv) \<longrightarrow>
      Reconstruct argv = \<lparr>printed = [Usage], configfile = None, raised = None\<rparr>) \<and>
   (\<not> list_all help_form (leading_flags argv) \<longrightarrow>
      (\<exists>msg. Reconstruct argv =
         \<lparr>printed = [Text msg, Usage], configfile = None, raised = None\<rparr>)) \<and>
   (leading_flags argv = [] \<longrightarrow>
      Reconstruct argv =
        (if length (positional argv) = 1 then
           \<lparr>printed = [Text (''Reconstructing the halo mass in various lightcones, according to instructions in '' @ hd (positional argv))],
            configfile = Some (hd (positional argv)), raised = None\<rparr>
         else \<lparr>printed = [Usage], configfile = None, raised = None\<rparr>)) \<and>
   (leading_flags argv \<noteq> [] \<longrightarrow>
      Usage \<in> set (printed (Reconstruct argv)) \<and> configfile (Reconstruct argv) = None \<and>
      raised (Reconstruct argv) = None) \<and>
   (c \<noteq> CHR ''h'' \<and> c \<noteq> CHR ''-'' \<longrightarrow>
      Reconstruct ((CHR ''-'' # c # cs) # rest) =
        \<lparr>printed = [Text (''option -'' @ [c] @ '' not recognized''), Usage],
         configfile = None, raised = None\<rparr>) \<and>
   (\<not> startswith ''help'' (fst (split_eq name)) \<longrightarrow>
      Reconstruct ((''--'' @ name) # rest) =
        \<lparr>printed = [Text (''option --'' @ fst (split_eq name) @ '' not recognized''), Usage],
         configfile = None, raised = None\<rparr>)"
proof (intro conjI impI)
  assume "leading_flags argv \<noteq> [] \<and> list_all help_form (leading_flags argv)"
  then show "Reconstruct argv = \<lparr>printed = [Usage], configfile = None, raised = None\<rparr>"
    using Reconstruct_help_flags by blast
next
  assume "\<not> list_all help_form (leading_flags argv)"
  then show "\<exists>msg. Reconstruct argv =
      \<lparr>printed = [Text msg, Usage], configfile = None, raised = None\<rparr>"
    by (rule Reconstruct_other_flag)
next
  assume "leading_flags argv = []"
  then show "Reconstruct argv =
        (if length (positional argv) = 1 then
           \<lparr>printed = [Text (''Reconstructing the halo mass in various lightcones, according to instructions in '' @ hd (positional argv))],
            configfile = Some (hd (positional argv)), raised = None\<rparr>
         else \<lparr>printed = [Usage], configfile = None, raised = None\<rparr>)"
    by (rule Reconstruct_no_flags)
next
  assume ne: "leading_flags argv \<noteq> []"
  have "Usage \<in> set (printed (Reconstruct argv)) \<and> configfile (Reconstruct argv) = None"
  proof (cases "list_all help_form (leading_flags argv)")
    case True
    with ne Reconstruct_help_flags [of argv] show ?thesis by simp
  next
    case False
    with Reconstruct_other_flag [of argv] show ?thesis by auto
  qed
  then show "Usage \<in> set (printed (Reconstruct argv))"
    and "configfile (Reconstruct argv) = None" by simp_all
  show "raised (Reconstruct argv) = None" by (rule Reconstruct_never_raises)
next
  assume "c \<noteq> CHR ''h'' \<and> c \<noteq> CHR ''-''"
  then have "getopt ((CHR ''-'' # c # cs) # rest) ''h'' [''help''] =
     Inl (GetoptError (''option -'' @ [c] @ '' not recognized''))"
    using short_unrecognized by blast
  from Reconstruct_rejected [OF this]
  show "Reconstruct ((CHR ''-'' # c # cs) # rest) =
        \<lparr>printed = [Text (''option -'' @ [c] @ '' not recognized''), Usage],
         configfile = None, raised = None\<rparr>" by simp
next
  assume "\<not> startswith ''help'' (fst (split_eq name))"
  from Reconstruct_rejected [OF long_unrecognized [OF this, of rest]]
  show "Reconstruct ((''--'' @ name) # rest) =
        \<lparr>printed = [Text (''option --'' @ fst (split_eq name) @ '' not recognized''), Usage],
         configfile = None, raised = None\<rparr>" by simp
qed

lemma leading_flags_examples:
  "leading_flags [''-hh'', ''--he'', ''survey.config''] = [''-hh'', ''--he'']"
  "leading_flags [''-h'', ''--bogus'', ''survey.config''] = [''-h'', ''--bogus'']"
  "leading_flags [''survey.config'', ''--bogus''] = []"
  "leading_flags [''--'', ''-h''] = []"
  by (simp_all add: leading_flags_def is_flag_def startswith_def)

lemma positional_examples:
  "positional [''survey.config'', ''--bogus''] = [''survey.config'', ''--bogus'']"
  "positional [''--'', ''-h''] = [''-h'']"
  by (simp_all add: positional_def is_flag_def startswith_def)

lemma help_form_examples:
  "help_form ''-hh''" "help_form ''--he''" "help_form ''-h''" "\<not> help_form ''--bogus''"
  by (simp_all add: help_form_def startswith_def)

theorem cli_flag_handling_witness:
  "leading_flags [''-hh'', ''--he'', ''survey.config''] = [''-hh'', ''--he''] \<and>
   list_all help_form [''-hh'', ''--he''] \<and>
   Reconstruct [''-hh'', ''--he'', ''survey.config''] =
     \<lparr>printed = [Usage], configfile = None, raised = None\<rparr> \<and>
   \<not> list_all help_form (leading_flags [''-h'', ''--bogus'', ''survey.config'']) \<and>
   (\<exists>msg. Reconstruct [''-h'', ''--bogus'', ''survey.config''] =
      \<lparr>printed = [Text msg, Usage], configfile = None, raised = None\<rparr>) \<and>
   Usage \<in> set (printed (Reconstruct [''-h'', ''--bogus'', ''survey.config''])) \<and>
   leading_flags [''--'', ''-h''] = [] \<and>
   Reconstruct [''--'', ''-h''] =
     \<lparr>printed = [Text ''Reconstructing the halo mass in various lightcones, according to instructions in -h''],
      configfile = Some ''-h'', raised = None\<rparr> \<and>
   Reconstruct [''-v'', ''survey.config''] =
     \<lparr>printed = [Text ''option -v not recognized'', Usage], configfile = None, raised = None\<rparr> \<and>
   Reconstruct [''--foo=1'', ''survey.config''] =
     \<lparr>printed = [Text ''option --foo not recognized'', Usage], configfile = None, raised = None\<rparr>"
  using cli_flag_handling [where argv = "[''-hh'', ''--he'', ''survey.config'']"
      and c = "CHR ''v''" and cs = "[]" and rest = "[''survey.config'']" and name = "''foo=1''"]
    cli_flag_handling [where argv = "[''-h'', ''--bogus'', ''survey.config'']"
      and c = "CHR ''v''" and cs = "[]" and rest = "[''survey.config'']" and name = "''foo=1''"]
    cli_flag_handling [where argv = "[''--'', ''-h'']"
      and c = "CHR ''v''" and cs = "[]" and rest = "[''survey.config'']" and name = "''foo=1''"]
  by (simp add: leading_flags_examples positional_examples help_form_examples startswith_def)

section \<open>Properties of the pipeline script\<close>

lemma trace_log [simp]: "trace (log ev s) = trace s @ [ev]"
  by (simp add: log_def)

lemma Result_log [simp]: "Result (log ev s) = Result s"
  by (simp add: log_def)

lemma dump_names_append [simp]: "dump_names (xs @ ys) = dump_names xs @ dump_names ys"
  by (induction xs rule: dump_names.induct) auto

lemma calibrate_calls_append [simp]:
  "calibrate_calls (xs @ ys) = calibrate_calls xs @ calibrate_calls ys"
  by (induction xs rule: calibrate_calls.induct) auto

lemma call_trace: "trace (state_of (call r s)) = trace s"
  by (cases r) (auto simp: call_def)


lemma call_state [simp]: "state_of (call r s) = s"
  by (cases r) (auto simp: call_def)

text \<open>The calibration loop makes no calibration call.\<close>

lemma calibration_cone_calls:
  "calibrate_calls (trace (state_of (calibration_cone c e i Cone s))) = calibrate_calls (trace s)"
  by (cases "Reconstruct_cone c Cone (Nrealisation e) truncationscale")
     (auto simp: calibration_cone_def)

lemma weighting_cone_state [simp]: "state_of (weighting_cone c i Cone s) = s"
  by (cases "WeightingScheme c Cone") (auto simp: weighting_cone_def)

lemma for_range_inv:
  assumes "\<And>i x s. P (state_of (body i x s)) = P s"
  shows "P (state_of (for_range body i xs s)) = P s"
proof (induction xs arbitrary: i s)
  case Nil
  show ?case by simp
next
  case (Cons x xs)
  show ?case
  proof (cases "body i x s")
    case (Ok s')
    then have "P s' = P s" using assms [of i x s] by simp
    with Ok Cons.IH [of "Suc i" s'] show ?thesis by simp
  next
    case (Raised err s')
    then have "P s' = P s" using assms [of i x s] by simp
    with Raised show ?thesis by simp
  qed
qed

lemma calibration_phase_calls:
  "calibrate_calls (trace (state_of (calibration_phase c e s))) = calibrate_calls (trace s)"
proof (cases "DoReconstruction e")
  case True
  then show ?thesis
    unfolding calibration_phase_def Let_def
    using for_range_inv [where P = "\<lambda>s. calibrate_calls (trace s)" and body = "calibration_cone c e"]
    by (simp add: calibration_cone_calls)
next
  case False
  then show ?thesis
    unfolding calibration_phase_def Let_def
    using for_range_inv [where P = "\<lambda>s. calibrate_calls (trace s)" and body = "weighting_cone c"]
    by simp
qed

lemma calibrate_cases:
  "(\<exists>r. calibrate c e v m s = Ok (log (CalibrateResultCall (CalibrationResultsDirectory e) (surveyname e) v 0.01 m) s\<lparr>Result := Some r\<rparr>))
   \<or> (\<exists>err. calibrate c e v m s = Raised err (log (CalibrateResultCall (CalibrationResultsDirectory e) (surveyname e) v 0.01 m) s))"
  by (cases "CalibrateResult c (CalibrationResultsDirectory e) (surveyname e) v 0.01 m")
     (auto simp: calibrate_def Let_def)

lemma real_cone_step:
  assumes inv: "bound_ok e s"
  shows "(\<exists>s'. real_cone c e i Cone s = Ok s' \<and> bound_ok e s' \<and> reaches_calibration c e Cone \<and>
            calibrate_calls (trace s') = calibrate_calls (trace s) @ [expected_call c e Cone])
       \<or> (\<exists>err s'. real_cone c e i Cone s = Raised err s' \<and>
            (calibrate_calls (trace s') = calibrate_calls (trace s) \<or>
             reaches_calibration c e Cone \<and>
             calibrate_calls (trace s') = calibrate_calls (trace s) @ [expected_call c e Cone]))"
proof (cases "Reconstruct_cone c Cone (Nrealisation e) truncationscale")
  case (Inl err)
  then show ?thesis by (simp add: real_cone_def)
next
  case (Inr r)
  let ?s1 = "log (Dump (cone_file (RealResultsDirectory e) i (surveyname e) ''uncalibratedresult'') (PConeResult r)) s"
  show ?thesis
  proof (cases "length r \<le> 3")
    case True
    with Inr show ?thesis by (simp add: real_cone_def Let_def)
  next
    case False
    then have rc: "real_cone c e i Cone s =
        and_then (calibration_branch c e (median c (r ! 3)) ?s1) (dump_Result e i)"
      using Inr by (simp add: real_cone_def Let_def)
    have s1: "calibrate_calls (trace ?s1) = calibrate_calls (trace s)" by simp
    show ?thesis
    proof (cases "WeightParameter1 e = kappa e \<or> WeightParameter1 e = mu e")
      case neither: False
      then have "Result ?s1 = None" using inv by (simp add: bound_ok_def)
      with neither rc s1 show ?thesis
        by (simp add: calibration_branch_def dump_Result_def)
    next
      case wp: True
      define m where "m = (WeightParameter1 e \<noteq> kappa e)"
      have br: "calibration_branch c e (median c (r ! 3)) ?s1 = calibrate c e (median c (r ! 3)) m ?s1"
        using wp by (auto simp: calibration_branch_def m_def)
      have ex: "expected_call c e Cone = (median c (r ! 3), 0.01, m)"
        using Inr by (simp add: expected_call_def m_def)
      have reach: "reaches_calibration c e Cone"
        using Inr False wp by (simp add: reaches_calibration_def)
      from calibrate_cases [of c e "median c (r ! 3)" m ?s1]
      show ?thesis
      proof
        assume "\<exists>r'. calibrate c e (median c (r ! 3)) m ?s1 =
          Ok (log (CalibrateResultCall (CalibrationResultsDirectory e) (surveyname e) (median c (r ! 3)) 0.01 m) ?s1\<lparr>Result := Some r'\<rparr>)"
        then obtain r' where "calibrate c e (median c (r ! 3)) m ?s1 =
          Ok (log (CalibrateResultCall (CalibrationResultsDirectory e) (surveyname e) (median c (r ! 3)) 0.01 m) ?s1\<lparr>Result := Some r'\<rparr>)" ..
        with rc br ex reach wp show ?thesis
          by (simp add: dump_Result_def bound_ok_def)
      next
        assume "\<exists>err. calibrate c e (median c (r ! 3)) m ?s1 =
          Raised err (log (CalibrateResultCall (CalibrationResultsDirectory e) (surveyname e) (median c (r ! 3)) 0.01 m) ?s1)"
        then obtain err where "calibrate c e (median c (r ! 3)) m ?s1 =
          Raised err (log (CalibrateResultCall (CalibrationResultsDirectory e) (surveyname e) (median c (r ! 3)) 0.01 m) ?s1)" ..
        with rc br ex reach show ?thesis by simp
      qed
    qed
  qed
qed

lemma real_loop_calls:
  assumes "bound_ok e s"
  shows "\<exists>k \<le> length xs.
      calibrate_calls (trace (state_of (for_range (real_cone c e) i xs s))) =
        calibrate_calls (trace s) @ map (expected_call c e) (take k xs) \<and>
      list_all (reaches_calibration c e) (take k xs) \<and>
      ((\<exists>s'. for_range (real_cone c e) i xs s = Ok s') \<longrightarrow> k = length xs)"
  using assms
proof (induction xs arbitrary: i s)
  case Nil
  show ?case by simp
next
  case (Cons x xs)
  from real_cone_step [OF Cons.prems, of c i x]
  show ?case
  proof (elim disjE exE conjE)
    fix s'
    assume ok: "real_cone c e i x s = Ok s'" and inv: "bound_ok e s'"
      and reach: "reaches_calibration c e x"
      and calls: "calibrate_calls (trace s') = calibrate_calls (trace s) @ [expected_call c e x]"
    from Cons.IH [OF inv, of "Suc i"] obtain k where k: "k \<le> length xs"
      "calibrate_calls (trace (state_of (for_range (real_cone c e) (Suc i) xs s'))) =
        calibrate_calls (trace s') @ map (expected_call c e) (take k xs)"
      "list_all (reaches_calibration c e) (take k xs)"
      "(\<exists>s''. for_range (real_cone c e) (Suc i) xs s' = Ok s'') \<longrightarrow> k = length xs"
      by blast
    show ?thesis
      by (rule exI [of _ "Suc k"]) (use ok reach calls k in simp)
  next
    fix err s'
    assume "real_cone c e i x s = Raised err s'"
      and "calibrate_calls (trace s') = calibrate_calls (trace s)"
    then show ?thesis by (intro exI [of _ 0]) simp
  next
    fix err s'
    assume "real_cone c e i x s = Raised err s'"
      and "reaches_calibration c e x"
      and "calibrate_calls (trace s') = calibrate_calls (trace s) @ [expected_call c e x]"
    then show ?thesis by (intro exI [of _ 1]) simp
  qed
qed

lemma and_then_inv:
  assumes "Q (state_of m)" and "\<And>s. Q s \<Longrightarrow> Q (state_of (f s))"
  shows "Q (state_of (and_then m f))"
  using assms by (cases m) auto

lemma calibration_cone_Result:
  "Result (state_of (calibration_cone c e i Cone s)) = Result s"
  by (cases "Reconstruct_cone c Cone (Nrealisation e) truncationscale")
     (auto simp: calibration_cone_def)

lemma calibration_phase_Result:
  "Result (state_of (calibration_phase c e s)) = Result s"
proof (cases "DoReconstruction e")
  case True
  then show ?thesis
    unfolding calibration_phase_def Let_def
    using for_range_inv [where P = Result and body = "calibration_cone c e"]
    by (simp add: calibration_cone_Result)
next
  case False
  then show ?thesis
    unfolding calibration_phase_def Let_def
    using for_range_inv [where P = Result and body = "weighting_cone c"]
    by simp
qed

lemma pipeline_before_real: "pipeline c e = and_then (before_real c e) (real_phase c e)"
  by (simp add: pipeline_def before_real_def)

lemma before_real_untouched:
  fixes c :: "('v, 'r) collaborators" and e :: "'w env"
  shows "untouched (state_of (before_real c e))"
proof -
  have 1: "untouched (state_of (make_cones c e \<lparr>trace = [], Result = None\<rparr>))"
    by (simp add: make_cones_def untouched_def)
  have 2: "untouched (state_of (define_objects c e s))" if "untouched s" for s :: "('v, 'r) state"
    using that by (simp add: define_objects_def)
  have 3: "untouched (state_of (calibration_phase c e s))" if "untouched s" for s :: "('v, 'r) state"
    using that by (simp add: untouched_def calibration_phase_calls calibration_phase_Result)
  have 4: "untouched (state_of (build_calibration c e s))" if "untouched s" for s :: "('v, 'r) state"
    using that by (simp add: build_calibration_def)
  have "untouched (state_of (and_then (make_cones c e \<lparr>trace = [], Result = None\<rparr>) (define_objects c e)))"
    using 1 2 by (rule and_then_inv)
  then have "untouched (state_of (and_then (and_then (make_cones c e \<lparr>trace = [], Result = None\<rparr>)
      (define_objects c e)) (calibration_phase c e)))"
    using 3 by (rule and_then_inv)
  then show ?thesis
    unfolding before_real_def using 4 by (rule and_then_inv)
qed

lemma pipeline_calls:
  "\<exists>k \<le> length (glob c (realcones e)).
      calibrate_calls (trace (state_of (pipeline c e))) =
        map (expected_call c e) (take k (glob c (realcones e))) \<and>
      list_all (reaches_calibration c e) (take k (glob c (realcones e))) \<and>
      ((\<exists>s. pipeline c e = Ok s) \<and> DoReconstruction e \<longrightarrow> k = length (glob c (realcones e)))"
proof (cases "before_real c e")
  case (Raised err s0)
  with before_real_untouched [of c e] have "calibrate_calls (trace s0) = []"
    by (simp add: untouched_def)
  with Raised show ?thesis
    by (intro exI [of _ 0]) (simp add: pipeline_before_real)
next
  case (Ok s0)
  with before_real_untouched [of c e] have u: "calibrate_calls (trace s0) = []" "Result s0 = None"
    by (simp_all add: untouched_def)
  show ?thesis
  proof (cases "DoReconstruction e")
    case False
    with Ok u show ?thesis
      by (intro exI [of _ 0]) (simp add: pipeline_before_real real_phase_def)
  next
    case True
    have "bound_ok e s0" using u by (simp add: bound_ok_def)
    from real_loop_calls [OF this, of "glob c (realcones e)" c 0] True Ok u
    show ?thesis by (simp add: pipeline_before_real real_phase_def)
  qed
qed

lemma sample_median_odd: "sample_median [5, 7, 6] = 6"
  by (simp add: sample_median_def)

lemma sample_median_even: "sample_median [8, 2, 4, 6] = 5"
  by (simp add: sample_median_def)

lemma str_nat_0: "str_nat 0 = ''0''"
  by (simp add: str_nat.simps digit_def)

lemma str_nat_1: "str_nat (Suc 0) = ''1''"
  by (simp add: str_nat.simps digit_def)

lemma example_run:
  "pipeline example_collaborators example_env =
     Ok \<lparr>trace =
          [Dump ''c/cone0_s.result'' (PConeResult [[1, 2, 3], [1, 1, 1], [0, 0, 0], [5, 7, 6]]),
           Dump ''r/cone0_s.uncalibratedresult'' (PConeResult [[1, 2, 3], [1, 1, 1], [0, 0, 0], [5, 7, 6]]),
           CalibrateResultCall ''c'' ''s'' 6 0.01 True,
           Dump ''r/cone0_s.calibratedresult'' (PResult [(6, 1, 6)]),
           Dump ''r/cone1_s.uncalibratedresult'' (PConeResult [[1, 2, 3, 4], [1, 1, 1, 1], [0, 0, 0, 0], [8, 2, 4, 6]]),
           CalibrateResultCall ''c'' ''s'' 5 0.01 True,
           Dump ''r/cone1_s.calibratedresult'' (PResult [(5, 1, 5)])],
         Result = Some [(5, 1, 5)]\<rparr>"
  by (simp add: pipeline_def make_cones_def define_objects_def calibration_phase_def
      build_calibration_def real_phase_def call_def calibration_cone_def real_cone_def
      calibration_branch_def calibrate_def dump_Result_def log_def cone_file_def
      example_collaborators_def example_env_def sample_median_even sample_median_odd
      str_nat_0 str_nat_1 Let_def)

text \<open>
  Claim C1. The \<open>j\<close>-th call of \<open>CalibrateResult\<close> in a run belongs to the \<open>j\<close>-th
  real lightcone, and the value it is given is \<open>numpy.median\<close> applied to entry 3 of the
  ConeResult that the reconstruction returned for that lightcone.
\<close>

theorem observed_value_is_median:
  assumes "j < length (calibrate_calls (trace (state_of (pipeline c e))))"
  shows "j < length (glob c (realcones e)) \<and>
    (\<exists>ConeResult.
       Reconstruct_cone c (glob c (realcones e) ! j) (Nrealisation e) truncationscale = Inr ConeResult \<and>
       3 < length ConeResult \<and>
       fst (calibrate_calls (trace (state_of (pipeline c e))) ! j) = median c (ConeResult ! 3))"
proof -
  let ?cones = "glob c (realcones e)"
  from pipeline_calls [of c e] obtain k where k: "k \<le> length ?cones"
    and calls: "calibrate_calls (trace (state_of (pipeline c e))) = map (expected_call c e) (take k ?cones)"
    and reach: "list_all (reaches_calibration c e) (take k ?cones)"
    by blast
  from assms calls k have j: "j < k" by simp
  with k have jc: "j < length ?cones" by simp
  from j k have "take k ?cones ! j = ?cones ! j" by simp
  moreover from j k have "j < length (take k ?cones)" by simp
  then have "take k ?cones ! j \<in> set (take k ?cones)" by (rule nth_mem)
  ultimately have "reaches_calibration c e (?cones ! j)"
    using reach by (simp add: list_all_iff)
  then obtain r where r: "Reconstruct_cone c (?cones ! j) (Nrealisation e) truncationscale = Inr r"
    and len: "3 < length r"
    by (cases "Reconstruct_cone c (?cones ! j) (Nrealisation e) truncationscale")
       (auto simp: reaches_calibration_def)
  from calls j k have "calibrate_calls (trace (state_of (pipeline c e))) ! j = expected_call c e (?cones ! j)"
    by simp
  with r have "fst (calibrate_calls (trace (state_of (pipeline c e))) ! j) = median c (r ! 3)"
    by (simp add: expected_call_def)
  with jc r len show ?thesis by blast
qed

lemma example_calls:
  "calibrate_calls (trace (state_of (pipeline example_collaborators example_env))) =
     [(6, 0.01, True), (5, 0.01, True)]"
  by (simp add: example_run)

theorem observed_value_is_median_witness:
  "Suc 0 < length (calibrate_calls (trace (state_of (pipeline example_collaborators example_env)))) \<and>
   fst (calibrate_calls (trace (state_of (pipeline example_collaborators example_env))) ! Suc 0) =
     sample_median [8, 2, 4, 6] \<and>
   (\<exists>ConeResult.
       Reconstruct_cone example_collaborators
         (glob example_collaborators (realcones example_env) ! Suc 0)
         (Nrealisation example_env) truncationscale = Inr ConeResult \<and>
       3 < length ConeResult \<and>
       fst (calibrate_calls (trace (state_of (pipeline example_collaborators example_env))) ! Suc 0) =
         median example_collaborators (ConeResult ! 3))"
proof -
  have h: "Suc 0 < length (calibrate_calls (trace (state_of (pipeline example_collaborators example_env))))"
    by (simp add: example_calls)
  from observed_value_is_median [OF h] h show ?thesis
    by (simp add: example_calls sample_median_even)
qed
















lemma outside_domain_no_call:
  assumes "WeightParameter1 e \<noteq> kappa e" and "WeightParameter1 e \<noteq> mu e"
  shows "calibration_branch c e Value s = Ok s"
  using assms by (simp add: calibration_branch_def)

text \<open>
  Claim C3. When \<open>WeightParameter1\<close> is one of the two distinct values \<open>kappa\<close> and
  \<open>mu\<close>, lines 211 to 215 make exactly one call of \<open>CalibrateResult\<close>, with
  \<open>magnification=False\<close> for \<open>kappa\<close> and \<open>magnification=True\<close> for \<open>mu\<close>;
  every call of a run carries that same flag, and a run that completes has made one call
  per real lightcone.
\<close>

theorem exactly_one_branch:
  assumes "kappa e \<noteq> mu e"
    and "WeightParameter1 e = kappa e \<or> WeightParameter1 e = mu e"
  shows "calibrate_calls (trace (state_of (calibration_branch c e Value s0))) =
      calibrate_calls (trace s0) @ [(Value, 0.01, WeightParameter1 e = mu e)] \<and>
    list_all (\<lambda>call. snd (snd call) = (WeightParameter1 e = mu e))
      (calibrate_calls (trace (state_of (pipeline c e)))) \<and>
    (pipeline c e = Ok s \<and> DoReconstruction e \<longrightarrow>
       length (calibrate_calls (trace s)) = length (glob c (realcones e)))"
proof (intro conjI impI)
  from assms have m: "(WeightParameter1 e \<noteq> kappa e) = (WeightParameter1 e = mu e)" by auto
  have "calibration_branch c e Value s0 = calibrate c e Value (WeightParameter1 e = mu e) s0"
    using assms by (auto simp: calibration_branch_def)
  with calibrate_cases [of c e Value "WeightParameter1 e = mu e" s0]
  show "calibrate_calls (trace (state_of (calibration_branch c e Value s0))) =
      calibrate_calls (trace s0) @ [(Value, 0.01, WeightParameter1 e = mu e)]"
    by auto
  from pipeline_calls [of c e] obtain k where
    calls: "calibrate_calls (trace (state_of (pipeline c e))) =
       map (expected_call c e) (take k (glob c (realcones e)))"
    and full: "(\<exists>s. pipeline c e = Ok s) \<and> DoReconstruction e \<longrightarrow> k = length (glob c (realcones e))"
    by blast
  have "snd (snd (expected_call c e Cone)) = (WeightParameter1 e = mu e)" for Cone
    using m by (cases "Reconstruct_cone c Cone (Nrealisation e) truncationscale")
      (simp_all add: expected_call_def)
  with calls show "list_all (\<lambda>call. snd (snd call) = (WeightParameter1 e = mu e))
      (calibrate_calls (trace (state_of (pipeline c e))))"
    by (simp add: list_all_iff)
  assume ok: "pipeline c e = Ok s \<and> DoReconstruction e"
  with full have "k = length (glob c (realcones e))" by blast
  with calls ok show "length (calibrate_calls (trace s)) = length (glob c (realcones e))"
    by simp
qed

lemma example_env_fields:
  "kappa example_env = ''kappa''" "mu example_env = ''mu''"
  "WeightParameter1 example_env = ''mu''" "DoReconstruction example_env"
  "realcones example_env = ''real/*''" "calibrationcones example_env = ''cal/*''"
  "surveyname example_env = ''s''" "CalibrationResultsDirectory example_env = ''c''"
  "RealResultsDirectory example_env = ''r''"
  by (simp_all add: example_env_def)

lemma example_glob:
  "glob example_collaborators ''real/*'' = [''real/a'', ''real/b'']"
  "glob example_collaborators ''cal/*'' = [''cal/a'']"
  by (simp_all add: example_collaborators_def)

theorem exactly_one_branch_witness:
  "kappa example_env \<noteq> mu example_env \<and>
   (WeightParameter1 example_env = kappa example_env \<or>
    WeightParameter1 example_env = mu example_env) \<and>
   calibrate_calls (trace (state_of (calibration_branch example_collaborators example_env 6
      \<lparr>trace = [], Result = None\<rparr>))) = [(6, 0.01, True)] \<and>
   list_all (\<lambda>call. snd (snd call)) [(6::real, 0.01::real, True), (5, 0.01, True)] \<and>
   length (calibrate_calls (trace (state_of (pipeline example_collaborators example_env)))) =
     length [''real/a'', ''real/b'']"
proof -
  have h1: "kappa example_env \<noteq> mu example_env" by (simp add: example_env_fields)
  have h2: "WeightParameter1 example_env = kappa example_env \<or>
    WeightParameter1 example_env = mu example_env" by (simp add: example_env_fields)
  from exactly_one_branch [OF h1 h2, of example_collaborators 6 "\<lparr>trace = [], Result = None\<rparr>"
      "state_of (pipeline example_collaborators example_env)"] h1 h2
  show ?thesis
    by (simp add: example_calls example_env_fields example_glob)
qed




section \<open>Properties of the foreground catalog\<close>

lemma select_galaxies_z:
  "select_galaxies self mag_cutoff mass_cutoff z_cutoff ra_cutoff dec_cutoff =
   select_galaxies self mag_cutoff mass_cutoff z_cutoff' ra_cutoff dec_cutoff"
  by (simp add: select_galaxies_def)

lemma select_galaxies_z_obs:
  assumes "select_galaxies self mag_cutoff mass_cutoff z_cutoff ra_cutoff dec_cutoff = Inr galaxies"
  shows "list_all (\<lambda>g. mag_cutoff ! 0 < z_obs g \<and> z_obs g < mag_cutoff ! 1) galaxies"
  using assms
  by (auto simp: select_galaxies_def Let_def list_all_iff cutoff_mask_def split: if_splits)

text \<open>
  Claim C9. \<open>findGalaxies\<close> and \<open>returnGalaxies\<close> return the same for any two values
  of \<open>z_cutoff\<close>, all other arguments being equal: the argument is never read, and the
  redshift \<open>z_obs\<close> of every selected galaxy lies between the bounds of \<open>mag_cutoff\<close>.
\<close>

theorem z_cutoff_has_no_effect:
  "findGalaxies self mag_cutoff mass_cutoff z_cutoff ra_cutoff dec_cutoff =
     findGalaxies self mag_cutoff mass_cutoff z_cutoff' ra_cutoff dec_cutoff \<and>
   returnGalaxies self mag_cutoff mass_cutoff z_cutoff ra_cutoff dec_cutoff =
     returnGalaxies self mag_cutoff mass_cutoff z_cutoff' ra_cutoff dec_cutoff \<and>
   (returnGalaxies self mag_cutoff mass_cutoff z_cutoff ra_cutoff dec_cutoff = Inr galaxies \<longrightarrow>
      list_all (\<lambda>g. mag_cutoff ! 0 < z_obs g \<and> z_obs g < mag_cutoff ! 1) galaxies)"
  using select_galaxies_z [of self mag_cutoff mass_cutoff z_cutoff ra_cutoff dec_cutoff z_cutoff']
    select_galaxies_z_obs [of self mag_cutoff mass_cutoff z_cutoff ra_cutoff dec_cutoff galaxies]
  by (simp add: findGalaxies_def returnGalaxies_def)

lemma example_selection_default:
  "returnGalaxies example_catalog [0, 24] [0, 10 ^ 20] z_cutoff None None = Inr [example_galaxy]"
  by (simp add: returnGalaxies_def select_galaxies_def ra_cutoff_rad_def dec_cutoff_rad_def
      cutoff_mask_def deg2rad_def example_catalog_def example_galaxy_def)

lemma example_selection_bright:
  "returnGalaxies example_catalog [18, 24] [0, 10 ^ 20] [0, 1.3857] None None = Inr []"
  by (simp add: returnGalaxies_def select_galaxies_def ra_cutoff_rad_def dec_cutoff_rad_def
      cutoff_mask_def deg2rad_def example_catalog_def example_galaxy_def)

theorem z_cutoff_has_no_effect_witness:
  "returnGalaxies example_catalog [0, 24] [0, 10 ^ 20] [0.6, 1] None None = Inr [example_galaxy] \<and>
   returnGalaxies example_catalog [0, 24] [0, 10 ^ 20] [0.6, 1] None None =
     returnGalaxies example_catalog [0, 24] [0, 10 ^ 20] [0, 1.3857] None None \<and>
   findGalaxies example_catalog [0, 24] [0, 10 ^ 20] [0.6, 1] None None =
     findGalaxies example_catalog [0, 24] [0, 10 ^ 20] [0, 1.3857] None None \<and>
   list_all (\<lambda>g. [0, 24] ! 0 < z_obs g \<and> z_obs g < [0, 24] ! 1) [example_galaxy]"
  using z_cutoff_has_no_effect [of example_catalog "[0, 24]" "[0, 10 ^ 20]" "[0.6, 1]" None None
      "[0, 1.3857]" "[example_galaxy]"]
    example_selection_default [of "[0.6, 1]"]
  by simp

section \<open>Properties of the specified collaborators\<close>

lemma reconstruct_rows:
  assumes "reconstruct realisation quantities massRelation lightcone n = Inr r"
  shows "length r = length quantities \<and> list_all (\<lambda>column. int (length column) = n) r"
  using assms by (auto simp: reconstruct_def list_all_iff split: if_splits)

lemma build_size:
  assumes "build weight coneResults groundTruth = Inr d"
    and "length groundTruth = length coneResults"
  shows "length d = sum_list (map (\<lambda>r. length (weight r)) coneResults)"
proof -
  have "length (concat (map (\<lambda>(r, truth). map (\<lambda>w. (fst truth, snd truth, w)) (weight r))
      (zip rs ts))) = sum_list (map (\<lambda>r. length (weight r)) rs)"
    if "length ts = length rs" for rs :: "'a ConeResult list" and ts :: "('a \<times> 'a) list"
    using that by (induction rs ts rule: list_induct2') (auto simp: length_concat)
  with assms show ?thesis by (auto simp: build_def split: if_splits)
qed

text \<open>
  Claim C5. The reconstruction step, given a realisation count that is zero or negative,
  signals a configuration error and returns no result.
\<close>

theorem reconstruct_rejects_nonpositive:
  assumes "nRealisations \<le> 0"
  shows "reconstruct realisation quantities massRelation lightcone nRealisations =
      Inl ConfigurationError"
  using assms by (simp add: reconstruct_def)

theorem reconstruct_rejects_nonpositive_witness:
  "(0::int) \<le> 0 \<and>
   reconstruct (\<lambda>q k lightcone. k) [(), ()] (\<lambda>g. Some g) [1::nat, 2] 0 = Inl ConfigurationError"
  using reconstruct_rejects_nonpositive [of 0 "\<lambda>q k lightcone. k" "[(), ()]" "\<lambda>g. Some g" "[1::nat, 2]"]
  by simp

lemma reconstruct_example:
  "reconstruct (\<lambda>q k lightcone. k) [(), ()] (\<lambda>g. Some g) [1::nat, 2] 3 =
     Inr [[0, 1, 2], [0, 1, 2]]"
  by (simp add: reconstruct_def upt_rec [of 0] upt_rec [of 1] upt_rec [of 2] numeral_3_eq_3)

text \<open>
  Claim C6. Building the calibration distribution from an empty set of calibration
  lightcones signals a data error, and no distribution is produced.
\<close>

theorem build_rejects_empty:
  "build weight [] groundTruth = Inl DataError \<and>
   (\<nexists>distribution. build weight [] groundTruth = Inr distribution)"
  by (simp add: build_def)

text \<open>
  The script itself does not look at the number of calibration lightcones: with none, the
  loop of lines 166 to 174 does nothing and the script goes on to the builder.
\<close>

lemma no_calibration_cones:
  assumes "glob c (calibrationcones e) = []"
  shows "calibration_phase c e s = Ok s"
  using assms by (simp add: calibration_phase_def)

end
